theory Spec2Isabelle
  imports Complex_Main "HOL-Library.AList"
begin

section \<open>Python values\<close>

text \<open>
  The values that reach the comparison functions of \<^verbatim>\<open>StatefulScenes.py\<close> come from a
  YAML file (the scene's targets) and from Home Assistant state objects (the observations):
  \<^verbatim>\<open>None\<close>, booleans, integers, floats, strings, lists, tuples and dicts with string keys.
  A dict is an association list in insertion order; well-formed dicts have distinct keys.

  A float is either one of the three special IEEE values or finite. A finite float is
  represented by its exact rational value and arithmetic on finite floats is exact:
  rounding and overflow of a finite result to infinity are not modelled.
\<close>

datatype pyfloat = Fin rat | PInf | NInf | NaN

datatype pyval =
    PNone
  | PBool bool
  | PInt int
  | PFloat pyfloat
  | PStr string
  | PList "pyval list"
  | PTuple "pyval list"
  | PDict "(string \<times> pyval) list"

datatype pyerror =
    TypeError | KeyError | AttributeError | OverflowError
  | StatefulScenesYamlInvalid string

type_synonym 'a result = "pyerror + 'a"

subsection \<open>Float arithmetic and comparison\<close>

fun fsub :: "pyfloat \<Rightarrow> pyfloat \<Rightarrow> pyfloat" where
  "fsub NaN _ = NaN"
| "fsub _ NaN = NaN"
| "fsub (Fin a) (Fin b) = Fin (a - b)"
| "fsub (Fin a) PInf = NInf"
| "fsub (Fin a) NInf = PInf"
| "fsub PInf (Fin b) = PInf"
| "fsub PInf PInf = NaN"
| "fsub PInf NInf = PInf"
| "fsub NInf (Fin b) = NInf"
| "fsub NInf PInf = NInf"
| "fsub NInf NInf = NaN"

fun fabs :: "pyfloat \<Rightarrow> pyfloat" where
  "fabs (Fin a) = Fin \<bar>a\<bar>"
| "fabs PInf = PInf"
| "fabs NInf = PInf"
| "fabs NaN = NaN"

text \<open>Multiplication by the positive integer factor 100 or 1 of \<^verbatim>\<open>compare_colors\<close>.\<close>

fun fscale :: "pyfloat \<Rightarrow> int \<Rightarrow> pyfloat" where
  "fscale (Fin a) k = Fin (a * of_int k)"
| "fscale PInf k = PInf"
| "fscale NInf k = NInf"
| "fscale NaN k = NaN"

text \<open>\<^verbatim>\<open>a <= b\<close> and \<^verbatim>\<open>a > b\<close>: every comparison with NaN is false.\<close>

fun fle :: "pyfloat \<Rightarrow> pyfloat \<Rightarrow> bool" where
  "fle NaN _ = False"
| "fle _ NaN = False"
| "fle (Fin a) (Fin b) = (a \<le> b)"
| "fle NInf _ = True"
| "fle _ PInf = True"
| "fle PInf _ = False"
| "fle (Fin a) NInf = False"

fun fgt :: "pyfloat \<Rightarrow> pyfloat \<Rightarrow> bool" where
  "fgt NaN _ = False"
| "fgt _ NaN = False"
| "fgt (Fin a) (Fin b) = (a > b)"
| "fgt PInf PInf = False"
| "fgt PInf _ = True"
| "fgt NInf _ = False"
| "fgt (Fin a) NInf = True"
| "fgt (Fin a) PInf = False"

subsection \<open>The isinstance tests\<close>

fun is_dict :: "pyval \<Rightarrow> bool" where
  "is_dict (PDict _) = True"
| "is_dict _ = False"

text \<open>\<^verbatim>\<open>isinstance(v, list) or isinstance(v, tuple)\<close>\<close>

fun is_seq :: "pyval \<Rightarrow> bool" where
  "is_seq (PList _) = True"
| "is_seq (PTuple _) = True"
| "is_seq _ = False"

text \<open>
  \<^verbatim>\<open>isinstance(v, int) or isinstance(v, float)\<close>: in Python \<^verbatim>\<open>bool\<close> is a subclass of
  \<^verbatim>\<open>int\<close>, so booleans pass the test.
\<close>

fun is_num :: "pyval \<Rightarrow> bool" where
  "is_num (PBool _) = True"
| "is_num (PInt _) = True"
| "is_num (PFloat _) = True"
| "is_num _ = False"

fun dict_items :: "pyval \<Rightarrow> (string \<times> pyval) list" where
  "dict_items (PDict d) = d"
| "dict_items _ = []"

fun seq_items :: "pyval \<Rightarrow> pyval list" where
  "seq_items (PList l) = l"
| "seq_items (PTuple l) = l"
| "seq_items _ = []"

subsection \<open>Subtraction of numbers\<close>

text \<open>
  An integer operand of a mixed subtraction is converted to a float first; the conversion
  raises \<^verbatim>\<open>OverflowError\<close> when the integer rounds to a magnitude beyond the largest
  double, that is from \<open>2^1024 - 2^970\<close> on. Below that limit the converted value is
  taken to be the integer itself: the rounding of integers beyond \<open>2^53\<close> is not
  modelled, as for all finite floats.
\<close>

definition float_int_limit :: int where
  "float_int_limit = 2 ^ 1024 - 2 ^ 970"

definition to_float :: "int \<Rightarrow> pyfloat result" where
  "to_float i = (if \<bar>i\<bar> \<ge> float_int_limit then Inl OverflowError else Inr (Fin (of_int i)))"

text \<open>
  \<^verbatim>\<open>a - b\<close>. The difference of two integers (or booleans) is an integer, given here
  by its exact value; every other pair of numbers is subtracted as floats; a
  non-number on either side is a \<^verbatim>\<open>TypeError\<close>.
\<close>

fun int_of :: "pyval \<Rightarrow> int option" where
  "int_of (PBool b) = Some (if b then 1 else 0)"
| "int_of (PInt i) = Some i"
| "int_of _ = None"

fun float_of :: "pyval \<Rightarrow> pyfloat result" where
  "float_of (PBool b) = Inr (Fin (if b then 1 else 0))"
| "float_of (PInt i) = to_float i"
| "float_of (PFloat f) = Inr f"
| "float_of _ = Inl TypeError"

definition py_sub :: "pyval \<Rightarrow> pyval \<Rightarrow> pyfloat result" where
  "py_sub a b =
     (if \<not> is_num a \<or> \<not> is_num b then Inl TypeError
      else case (int_of a, int_of b) of
        (Some i, Some j) \<Rightarrow> Inr (Fin (of_int (i - j)))
      | _ \<Rightarrow> (case float_of a of
                Inl e \<Rightarrow> Inl e
              | Inr x \<Rightarrow> (case float_of b of
                           Inl e \<Rightarrow> Inl e
                         | Inr y \<Rightarrow> Inr (fsub x y))))"

section \<open>The comparison functions\<close>

text \<open>
  \<^verbatim>\<open>self.number_tolerance\<close> is the first argument \<open>tol\<close> of each function (an integer
  tolerance \<open>n\<close> is \<open>Fin (of_int n)\<close>).
\<close>

definition compare_numbers :: "pyfloat \<Rightarrow> pyval \<Rightarrow> pyval \<Rightarrow> bool result" where
  "compare_numbers tol number1 number2 =
     (case py_sub number1 number2 of
        Inl e \<Rightarrow> Inl e
      | Inr d \<Rightarrow> Inr (fle (fabs d) tol))"

text \<open>
  The last line of \<^verbatim>\<open>compare_values\<close>, \<^verbatim>\<open>value1 == value2\<close>, is reached only by pairs
  that are not two dicts, not two sequences and not two numbers. On these Python's
  equality holds for \<^verbatim>\<open>None\<close> with \<^verbatim>\<open>None\<close> and for two equal strings, and for
  nothing else.
\<close>

definition eq_other :: "pyval \<Rightarrow> pyval \<Rightarrow> bool" where
  "eq_other value1 value2 =
     (case (value1, value2) of
        (PNone, PNone) \<Rightarrow> True
      | (PStr a, PStr b) \<Rightarrow> a = b
      | _ \<Rightarrow> False)"

lemma dict_items_size [termination_simp]:
  "is_dict v \<Longrightarrow> size_list (size_prod (\<lambda>_. 0) size) (dict_items v) < size v"
  by (cases v) simp_all

lemma seq_items_size [termination_simp]:
  "is_seq v \<Longrightarrow> size_list size (seq_items v) < size v"
  by (cases v) simp_all

function compare_values :: "pyfloat \<Rightarrow> pyval \<Rightarrow> pyval \<Rightarrow> bool result"
  and compare_dicts :: "pyfloat \<Rightarrow> (string \<times> pyval) list \<Rightarrow> (string \<times> pyval) list \<Rightarrow> bool result"
  and compare_lists :: "pyfloat \<Rightarrow> pyval list \<Rightarrow> pyval list \<Rightarrow> bool result"
where
  "compare_values tol value1 value2 =
     (if is_dict value1 \<and> is_dict value2 then
        compare_dicts tol (dict_items value1) (dict_items value2)
      else if is_seq value1 \<and> is_seq value2 then
        compare_lists tol (seq_items value1) (seq_items value2)
      else if is_num value1 \<and> is_num value2 then
        compare_numbers tol value1 value2
      else Inr (eq_other value1 value2))"
| "compare_dicts tol [] dict2 = Inr True"
| "compare_dicts tol ((key, val) # rest) dict2 =
     (case map_of dict2 key of
        None \<Rightarrow> Inr False
      | Some value2 \<Rightarrow>
          (case compare_values tol val value2 of
             Inl e \<Rightarrow> Inl e
           | Inr False \<Rightarrow> Inr False
           | Inr True \<Rightarrow> compare_dicts tol rest dict2))"
| "compare_lists tol [] list2 = Inr True"
| "compare_lists tol (value1 # rest1) [] = Inr True"
| "compare_lists tol (value1 # rest1) (value2 # rest2) =
     (case compare_values tol value1 value2 of
        Inl e \<Rightarrow> Inl e
      | Inr False \<Rightarrow> Inr False
      | Inr True \<Rightarrow> compare_lists tol rest1 rest2)"
  by pat_completeness auto
termination
  by (relation "measure (\<lambda>x. case x of
        Inl (tol, v1, v2) \<Rightarrow> size v1
      | Inr (Inl (tol, d1, d2)) \<Rightarrow> size_list (size_prod (\<lambda>_. 0) size) d1
      | Inr (Inr (tol, l1, l2)) \<Rightarrow> size_list size l1)")
    (auto simp: dict_items_size seq_items_size)

text \<open>
  \<^verbatim>\<open>compare_colors\<close>. The guard after the two \<^verbatim>\<open>None\<close> tests returns \<^verbatim>\<open>False\<close> only
  when neither colour is a list or tuple. \<^verbatim>\<open>zip\<close> then asks both arguments for an
  iterator, which raises \<^verbatim>\<open>TypeError\<close> for a number; a string iterates over its
  characters and a dict over its keys.
\<close>

fun py_iter :: "pyval \<Rightarrow> pyval list result" where
  "py_iter (PList l) = Inr l"
| "py_iter (PTuple l) = Inr l"
| "py_iter (PStr s) = Inr (map (\<lambda>c. PStr [c]) s)"
| "py_iter (PDict d) = Inr (map (\<lambda>kv. PStr (fst kv)) d)"
| "py_iter _ = Inl TypeError"

fun compare_components :: "pyfloat \<Rightarrow> bool \<Rightarrow> pyval list \<Rightarrow> pyval list \<Rightarrow> bool result" where
  "compare_components tol is_xy_color [] l2 = Inr True"
| "compare_components tol is_xy_color (component1 # rest1) [] = Inr True"
| "compare_components tol is_xy_color (component1 # rest1) (component2 # rest2) =
     (let factor = (if is_xy_color then 100 else 1) in
      case py_sub component1 component2 of
        Inl e \<Rightarrow> Inl e
      | Inr d \<Rightarrow>
          if fgt (fscale (fabs d) factor) tol then Inr False
          else compare_components tol is_xy_color rest1 rest2)"

definition compare_colors :: "pyfloat \<Rightarrow> pyval \<Rightarrow> pyval \<Rightarrow> bool \<Rightarrow> bool result" where
  "compare_colors tol color1 color2 is_xy_color =
     (if color1 = PNone \<and> color2 = PNone then Inr True
      else if color1 = PNone \<or> color2 = PNone then Inr False
      else if \<not> is_seq color1 \<and> \<not> is_seq color2 then Inr False
      else case py_iter color1 of
        Inl e \<Rightarrow> Inl e
      | Inr l1 \<Rightarrow> (case py_iter color2 of
                    Inl e \<Rightarrow> Inl e
                  | Inr l2 \<Rightarrow> compare_components tol is_xy_color l1 l2))"

section \<open>Observations, the host and the scene\<close>

text \<open>
  A Home Assistant state object: its state string, the domain of its entity and its
  attributes. \<^verbatim>\<open>hass.states.get\<close> returns one, or \<^verbatim>\<open>None\<close> for an unknown entity.
\<close>

record observation =
  state :: string
  domain :: string
  attributes :: "(string \<times> pyval) list"

text \<open>A call of \<^verbatim>\<open>hass.services.call\<close>: domain, service, target entity and transition.\<close>

datatype service_call = ServiceCall string string string pyfloat

record home_assistant =
  states_get :: "string \<Rightarrow> observation option"
  service_calls :: "service_call list"

text \<open>
  The fields of \<^verbatim>\<open>Scene\<close> that the methods below read or write. \<open>entities\<close> maps an
  entity id to its target dict (\<^verbatim>\<open>state\<close> and attributes), \<open>states\<close> holds the result
  of the last check of each entity (\<^verbatim>\<open>True\<close>, \<^verbatim>\<open>False\<close> or \<^verbatim>\<open>None\<close>) and
  \<open>restore_states\<close> the state object kept for restoring.
\<close>

record scene =
  hass :: home_assistant
  name :: string
  entity_id :: "string option"
  number_tolerance :: pyfloat
  entities :: "(string \<times> (string \<times> pyval) list) list"
  is_on :: "bool option"
  transition_time :: pyfloat
  restore_on_deactivate :: bool
  ignore_unavailable :: bool
  states :: "(string \<times> bool option) list"
  restore_states :: "(string \<times> observation option) list"

text \<open>
  \<^verbatim>\<open>ATTRIBUTES_TO_CHECK\<close> is imported from \<^verbatim>\<open>const.py\<close>, a module outside
  \<^verbatim>\<open>StatefulScenes.py\<close>: the table (domain to attribute names) is the parameter \<open>atc\<close>
  of the functions that read it.
\<close>

type_synonym attributes_to_check = "(string \<times> string list) list"

definition endswith :: "string \<Rightarrow> string \<Rightarrow> bool" where
  "endswith s suffix =
     (length suffix \<le> length s \<and> drop (length s - length suffix) s = suffix)"

text \<open>
  The attribute loop that \<^verbatim>\<open>check_state\<close> and \<^verbatim>\<open>is_interesting_update\<close> both contain:
  an attribute missing from either dict is skipped, a colour attribute is compared by
  \<^verbatim>\<open>compare_colors\<close> and any other by \<^verbatim>\<open>compare_values\<close>; the loop leaves at the
  first comparison that is not a match (\<open>Inr False\<close>) and completes with \<open>Inr True\<close>.
\<close>

definition compare_attribute :: "pyfloat \<Rightarrow> string \<Rightarrow> pyval \<Rightarrow> pyval \<Rightarrow> bool result" where
  "compare_attribute tol attribute value1 value2 =
     (if endswith attribute ''_color''
      then compare_colors tol value1 value2 (attribute = ''xy_color'')
      else compare_values tol value1 value2)"

fun attributes_match ::
  "pyfloat \<Rightarrow> (string \<times> pyval) list \<Rightarrow> (string \<times> pyval) list \<Rightarrow> string list \<Rightarrow> bool result" where
  "attributes_match tol attrs1 attrs2 [] = Inr True"
| "attributes_match tol attrs1 attrs2 (attribute # rest) =
     (case map_of attrs1 attribute of
        None \<Rightarrow> attributes_match tol attrs1 attrs2 rest
      | Some value1 \<Rightarrow>
          (case map_of attrs2 attribute of
             None \<Rightarrow> attributes_match tol attrs1 attrs2 rest
           | Some value2 \<Rightarrow>
               (case compare_attribute tol attribute value1 value2 of
                  Inl e \<Rightarrow> Inl e
                | Inr False \<Rightarrow> Inr False
                | Inr True \<Rightarrow> attributes_match tol attrs1 attrs2 rest)))"

text \<open>
  \<^verbatim>\<open>check_state\<close> returns \<^verbatim>\<open>True\<close>, \<^verbatim>\<open>False\<close> or \<^verbatim>\<open>None\<close>: \<open>Some True\<close>,
  \<open>Some False\<close> and \<open>None\<close>.
\<close>

definition check_state ::
  "attributes_to_check \<Rightarrow> scene \<Rightarrow> string \<Rightarrow> observation option \<Rightarrow> bool option result" where
  "check_state atc s eid new_state =
     (case new_state of
        None \<Rightarrow> Inr (Some False)
      | Some st \<Rightarrow>
          if ignore_unavailable s \<and> state st = ''unavailable'' then Inr None
          else case map_of (entities s) eid of
            None \<Rightarrow> Inl KeyError
          | Some target \<Rightarrow>
              (case map_of target ''state'' of
                 None \<Rightarrow> Inl KeyError
               | Some target_state \<Rightarrow>
                   (case compare_values (number_tolerance s) target_state (PStr (state st)) of
                      Inl e \<Rightarrow> Inl e
                    | Inr False \<Rightarrow> Inr (Some False)
                    | Inr True \<Rightarrow>
                        (case map_of atc (domain st) of
                           None \<Rightarrow> Inr (Some True)
                         | Some attrs \<Rightarrow>
                             (case attributes_match (number_tolerance s) target (attributes st) attrs of
                                Inl e \<Rightarrow> Inl e
                              | Inr m \<Rightarrow> Inr (Some m))))))"

text \<open>Python truth of a cached result: \<^verbatim>\<open>not x\<close> holds for \<^verbatim>\<open>False\<close> and for \<^verbatim>\<open>None\<close>.\<close>

fun truthy :: "bool option \<Rightarrow> bool" where
  "truthy (Some b) = b"
| "truthy None = False"

text \<open>
  The loop of \<^verbatim>\<open>check_all_states\<close> over the entity ids still to visit. A stateful
  method returns its outcome and the scene it leaves behind: here \<open>Inr True\<close> when the
  loop ran to its end, \<open>Inr False\<close> when it left through the \<^verbatim>\<open>return\<close> of the
  short cut, and the error when \<^verbatim>\<open>check_state\<close> raised (what was stored before stays).
\<close>

fun check_all_loop :: "attributes_to_check \<Rightarrow> scene \<Rightarrow> string list \<Rightarrow> bool result \<times> scene" where
  "check_all_loop atc s [] = (Inr True, s)"
| "check_all_loop atc s (eid # rest) =
     (case check_state atc s eid (states_get (hass s) eid) of
        Inl e \<Rightarrow> (Inl e, s)
      | Inr r \<Rightarrow>
          (let s1 = s\<lparr>states := AList.update eid r (states s)\<rparr> in
           if \<not> restore_on_deactivate s1 \<and> \<not> truthy r
           then (Inr False, s1\<lparr>is_on := Some False\<rparr>)
           else check_all_loop atc s1 rest))"

text \<open>
  After the loop the results that are not \<^verbatim>\<open>None\<close> are collected; the assignment under
  \<^verbatim>\<open>if not states\<close> is followed, with no \<^verbatim>\<open>return\<close> or \<^verbatim>\<open>else\<close> between them, by
  the assignment of \<^verbatim>\<open>all(states)\<close>.
\<close>

definition check_all_states :: "attributes_to_check \<Rightarrow> scene \<Rightarrow> unit result \<times> scene" where
  "check_all_states atc s =
     (case check_all_loop atc s (map fst (entities s)) of
        (Inl e, s1) \<Rightarrow> (Inl e, s1)
      | (Inr False, s1) \<Rightarrow> (Inr (), s1)
      | (Inr True, s1) \<Rightarrow>
          (let sts = map the (filter (\<lambda>st. st \<noteq> None) (map snd (states s1)));
               s2 = (if sts = [] then s1\<lparr>is_on := Some False\<rparr> else s1)
           in (Inr (), s2\<lparr>is_on := Some (list_all (\<lambda>b. b) sts)\<rparr>)))"

subsection \<open>The state change callback\<close>

record event =
  ev_entity_id :: string
  new_state :: "observation option"
  old_state :: "observation option"

definition store_entity_state :: "scene \<Rightarrow> string \<Rightarrow> observation option \<Rightarrow> scene" where
  "store_entity_state s eid st = s\<lparr>restore_states := AList.update eid st (restore_states s)\<rparr>"

text \<open>
  \<^verbatim>\<open>is_interesting_update\<close>: reading \<^verbatim>\<open>new_state.state\<close> of a missing new state is an
  \<^verbatim>\<open>AttributeError\<close>.
\<close>

definition is_interesting_update ::
  "attributes_to_check \<Rightarrow> scene \<Rightarrow> observation option \<Rightarrow> observation option \<Rightarrow> bool result" where
  "is_interesting_update atc s old new =
     (case old of
        None \<Rightarrow> Inr True
      | Some old_st \<Rightarrow>
          (case new of
             None \<Rightarrow> Inl AttributeError
           | Some new_st \<Rightarrow>
               (case compare_values (number_tolerance s) (PStr (state old_st)) (PStr (state new_st)) of
                  Inl e \<Rightarrow> Inl e
                | Inr False \<Rightarrow> Inr True
                | Inr True \<Rightarrow>
                    (case map_of atc (domain new_st) of
                       None \<Rightarrow> Inr False
                     | Some attrs \<Rightarrow>
                         (case attributes_match (number_tolerance s)
                                 (attributes old_st) (attributes new_st) attrs of
                            Inl e \<Rightarrow> Inl e
                          | Inr m \<Rightarrow> Inr (\<not> m))))))"

text \<open>
  \<^verbatim>\<open>update_callback\<close> stores the event's old state first; its outcome tells whether
  the update was interesting, in which case (after the debounce sleep) the registered
  \<^verbatim>\<open>schedule_update\<close> function of the host is called.
\<close>

definition update_callback :: "attributes_to_check \<Rightarrow> scene \<Rightarrow> event \<Rightarrow> bool result \<times> scene" where
  "update_callback atc s ev =
     (let s1 = store_entity_state s (ev_entity_id ev) (old_state ev)
      in (is_interesting_update atc s1 (old_state ev) (new_state ev), s1))"

subsection \<open>Activation\<close>

text \<open>\<^verbatim>\<open>a + b\<close> for a string \<open>a\<close>: adding \<^verbatim>\<open>None\<close> to a string is a \<^verbatim>\<open>TypeError\<close>.\<close>

fun str_add :: "string \<Rightarrow> string option \<Rightarrow> string result" where
  "str_add a (Some b) = Inr (a @ b)"
| "str_add a None = Inl TypeError"

text \<open>
  \<^verbatim>\<open>turn_on\<close>: with no entity id the message of the exception to raise is built first,
  from the name and the entity id; otherwise the scene is applied through the host and
  the scene is on.
\<close>

definition turn_on :: "scene \<Rightarrow> unit result \<times> scene" where
  "turn_on s =
     (case entity_id s of
        None \<Rightarrow>
          (case str_add (''Cannot find entity_id for: '' @ name s) (entity_id s) of
             Inl e \<Rightarrow> (Inl e, s)
           | Inr msg \<Rightarrow> (Inl (StatefulScenesYamlInvalid msg), s))
      | Some target \<Rightarrow>
          (Inr (),
           s\<lparr>hass := (hass s)\<lparr>service_calls :=
                service_calls (hass s) @
                  [ServiceCall ''scene'' ''turn_on'' target (transition_time s)]\<rparr>,
             is_on := Some True\<rparr>))"

section \<open>Classes of values and example data\<close>

text \<open>
  A number that \<^verbatim>\<open>-\<close> accepts next to any other number: a float, a boolean, or an
  integer that converts to a float.
\<close>

fun float_safe :: "pyval \<Rightarrow> bool" where
  "float_safe (PBool b) = True"
| "float_safe (PInt i) = (\<bar>i\<bar> < float_int_limit)"
| "float_safe (PFloat f) = True"
| "float_safe _ = False"

text \<open>A value without NaN and without an infinity, however deeply nested.\<close>

fun is_finite :: "pyfloat \<Rightarrow> bool" where
  "is_finite (Fin r) = True"
| "is_finite _ = False"

fun finite_floats :: "pyval \<Rightarrow> bool" where
  "finite_floats (PFloat f) = is_finite f"
| "finite_floats (PList l) = (\<forall>v \<in> set l. finite_floats v)"
| "finite_floats (PTuple l) = (\<forall>v \<in> set l. finite_floats v)"
| "finite_floats (PDict d) = (\<forall>kv \<in> set d. finite_floats (snd kv))"
| "finite_floats _ = True"

text \<open>
  The invariant of every Python dict, which the association lists do not enforce by
  themselves: the keys of each dict in the value are distinct.
\<close>

fun distinct_keys :: "pyval \<Rightarrow> bool" where
  "distinct_keys (PList l) = (\<forall>v \<in> set l. distinct_keys v)"
| "distinct_keys (PTuple l) = (\<forall>v \<in> set l. distinct_keys v)"
| "distinct_keys (PDict d) = (distinct (map fst d) \<and> (\<forall>kv \<in> set d. distinct_keys (snd kv)))"
| "distinct_keys _ = True"

text \<open>
  Modelled from the spec: \<^verbatim>\<open>ATTRIBUTES_TO_CHECK\<close> of \<^verbatim>\<open>const.py\<close> is missing from the
  sources; this is the table that section 6 of the specification gives as its example.
\<close>

definition ATTRIBUTES_TO_CHECK_spec :: attributes_to_check where
  "ATTRIBUTES_TO_CHECK_spec =
     [(''light'', [''brightness'', ''color_temp'', ''rgb_color'', ''xy_color'', ''hs_color'', ''effect'']),
      (''climate'', [''temperature'', ''hvac_mode'']),
      (''switch'', []),
      (''cover'', [''current_position'']),
      (''media_player'', [''volume_level'', ''source''])]"

text \<open>
  The fields as \<^verbatim>\<open>Scene.__init__\<close> leaves them, for the entity id that the
  configuration or the lookup by scene id gave (\<open>None\<close> when neither did): no verdict
  yet, restoring on, unavailable entities not ignored, \<^verbatim>\<open>False\<close> cached for every
  entity and no state kept for restoring. The setters of the two flags assign the field.
\<close>

definition scene_init ::
  "home_assistant \<Rightarrow> string \<Rightarrow> string option \<Rightarrow> pyfloat \<Rightarrow> (string \<times> (string \<times> pyval) list) list \<Rightarrow> scene" where
  "scene_init h nm eid tol ents =
     \<lparr>hass = h, name = nm, entity_id = eid, number_tolerance = tol, entities = ents,
      is_on = None, transition_time = Fin 0, restore_on_deactivate = True,
      ignore_unavailable = False,
      states = map (\<lambda>kv. (fst kv, Some False)) ents,
      restore_states = map (\<lambda>kv. (fst kv, None)) ents\<rparr>"

text \<open>A state object of a light, and a host that knows the given state objects.\<close>

definition light :: "string \<Rightarrow> (string \<times> pyval) list \<Rightarrow> observation" where
  "light st attrs = \<lparr>state = st, domain = ''light'', attributes = attrs\<rparr>"

definition host :: "(string \<times> observation) list \<Rightarrow> home_assistant" where
  "host obs = \<lparr>states_get = map_of obs, service_calls = []\<rparr>"

text \<open>The attributes that are compared for a domain: none for a domain outside the table.\<close>

definition allow_list :: "attributes_to_check \<Rightarrow> string \<Rightarrow> string list" where
  "allow_list atc d = (case map_of atc d of None \<Rightarrow> [] | Some attrs \<Rightarrow> attrs)"

text \<open>
  A scene of three lights that does not restore on deactivation, after a pass that found
  all three lights matching. Now the first light still matches (brightness 102 against
  100 at tolerance 3), the second has the given state and the third is off.
\<close>

definition scene_three_lights :: "string \<Rightarrow> scene" where
  "scene_three_lights b_state =
     (scene_init
        (host [(''light.a'', light ''on'' [(''brightness'', PInt 102)]),
               (''light.b'', light b_state []),
               (''light.c'', light ''off'' [])])
        ''Evening'' (Some ''scene.evening'') (Fin 3)
        [(''light.a'', [(''state'', PStr ''on''), (''brightness'', PInt 100)]),
         (''light.b'', [(''state'', PStr ''on'')]),
         (''light.c'', [(''state'', PStr ''on'')])])
     \<lparr>is_on := Some True, restore_on_deactivate := False,
      states := [(''light.a'', Some True), (''light.b'', Some True), (''light.c'', Some True)]\<rparr>"

text \<open>
  A scene of one light that ignores unavailable entities, while the light is unavailable.
\<close>

definition scene_unavailable :: scene where
  "scene_unavailable =
     (scene_init (host [(''light.a'', light ''unavailable'' [])]) ''Evening'' (Some ''scene.evening'')
        (Fin 3) [(''light.a'', [(''state'', PStr ''on'')])])
     \<lparr>ignore_unavailable := True\<rparr>"

text \<open>
  A scene of one light that is on, as the scene wants it, and the event of that light
  having changed from off to on.
\<close>

definition scene_one_light :: scene where
  "scene_one_light =
     scene_init (host [(''light.a'', light ''on'' [])]) ''Evening'' (Some ''scene.evening'')
        (Fin 3) [(''light.a'', [(''state'', PStr ''on'')])]"

definition turned_on :: event where
  "turned_on = \<lparr>ev_entity_id = ''light.a'', new_state = Some (light ''on'' []),
                 old_state = Some (light ''off'' [])\<rparr>"

text \<open>
  A scene whose target colour was written with quoted components, while the light reports
  the colour as numbers.
\<close>

definition scene_quoted_color :: scene where
  "scene_quoted_color =
     scene_init (host [(''light.a'', light ''on'' [(''rgb_color'', PTuple [PInt 255, PInt 0, PInt 0])])])
        ''Red'' (Some ''scene.red'') (Fin 3)
        [(''light.a'', [(''state'', PStr ''on''),
                        (''rgb_color'', PList [PStr ''255'', PStr ''0'', PStr ''0''])])]"

text \<open>
  A scene of one light with a target brightness and two target colours, and the state
  object of that light, on, with brightness 102, a given \<^verbatim>\<open>rgb_color\<close> and a given
  \<^verbatim>\<open>xy_color\<close>.
\<close>

definition scene_colored :: scene where
  "scene_colored =
     scene_init (host []) ''Sunset'' (Some ''scene.sunset'') (Fin 3)
        [(''light.a'', [(''state'', PStr ''on''), (''brightness'', PInt 100),
                        (''rgb_color'', PList [PInt 255, PInt 0, PInt 0]),
                        (''xy_color'', PList [PFloat (Fin (1 / 2)), PFloat (Fin (1 / 2))])])]"

definition colored_light :: "pyval \<Rightarrow> pyval \<Rightarrow> observation" where
  "colored_light rgb xy =
     light ''on'' [(''brightness'', PInt 102), (''rgb_color'', rgb), (''xy_color'', xy)]"

text \<open>A scene for which no entity id was found.\<close>

definition scene_unresolved :: scene where
  "scene_unresolved =
     scene_init (host []) ''Evening'' None (Fin 3) [(''light.a'', [(''state'', PStr ''on'')])]"

section \<open>Properties of the comparison functions\<close>

declare compare_values.simps [simp del]

lemma compare_values_dict:
  "compare_values tol (PDict a) (PDict b) = compare_dicts tol a b"
  by (simp add: compare_values.simps)

lemma compare_values_seq:
  "is_seq a \<Longrightarrow> is_seq b \<Longrightarrow>
     compare_values tol a b = compare_lists tol (seq_items a) (seq_items b)"
  by (cases a; cases b) (simp_all add: compare_values.simps)

lemma compare_dicts_True_iff:
  "compare_dicts tol d1 d2 = Inr True \<longleftrightarrow>
     (\<forall>(k, v) \<in> set d1. \<exists>v2. map_of d2 k = Some v2 \<and> compare_values tol v v2 = Inr True)"
  by (induction d1) (auto split: option.splits sum.splits bool.splits)

lemma compare_dicts_cong_keys:
  "(\<forall>k \<in> fst ` set d1. map_of d2 k = map_of d2' k) \<Longrightarrow>
     compare_dicts tol d1 d2 = compare_dicts tol d1 d2'"
  by (induction d1) (auto split: option.splits sum.splits bool.splits)


lemma compare_lists_take:
  "compare_lists tol l1 l2 =
     compare_lists tol (take (min (length l1) (length l2)) l1) (take (min (length l1) (length l2)) l2)"
proof (induction l1 arbitrary: l2)
  case Nil
  show ?case by simp
next
  case (Cons x xs)
  show ?case
  proof (cases l2)
    case Nil
    then show ?thesis by simp
  next
    case (Cons y ys)
    with Cons.IH [of ys] show ?thesis
      by (simp split: sum.splits bool.splits)
  qed
qed

lemma compare_lists_True_iff:
  "compare_lists tol l1 l2 = Inr True \<longleftrightarrow>
     (\<forall>i < min (length l1) (length l2). compare_values tol (l1 ! i) (l2 ! i) = Inr True)"
proof (induction l1 arbitrary: l2)
  case Nil
  show ?case by simp
next
  case (Cons x xs)
  show ?case
  proof (cases l2)
    case Nil
    then show ?thesis by simp
  next
    case (Cons y ys)
    show ?thesis
      unfolding Cons
      by (auto simp: Cons.IH [of ys] less_Suc_eq_0_disj split: sum.splits bool.splits)
  qed
qed

lemma compare_lists_append_left:
  "length l2 \<le> length l1 \<Longrightarrow> compare_lists tol (l1 @ extra) l2 = compare_lists tol l1 l2"
  by (subst compare_lists_take, subst (2) compare_lists_take) (simp add: min_def)

lemma compare_lists_append_right:
  "length l1 \<le> length l2 \<Longrightarrow> compare_lists tol l1 (l2 @ extra) = compare_lists tol l1 l2"
  by (subst compare_lists_take, subst (2) compare_lists_take) (simp add: min_def)


lemma compare_lists_refl:
  "(\<forall>v \<in> set l. compare_values tol v v = Inr True) \<Longrightarrow> compare_lists tol l l = Inr True"
  by (simp add: compare_lists_True_iff)

lemma compare_dicts_refl:
  assumes "distinct (map fst d)"
    and "\<forall>kv \<in> set d. compare_values tol (snd kv) (snd kv) = Inr True"
  shows "compare_dicts tol d d = Inr True"
  unfolding compare_dicts_True_iff
proof (clarify)
  fix k v assume kv: "(k, v) \<in> set d"
  with assms(1) have "map_of d k = Some v" by simp
  moreover from assms(2) kv have "compare_values tol v v = Inr True" by force
  ultimately show "\<exists>v2. map_of d k = Some v2 \<and> compare_values tol v v2 = Inr True" by simp
qed

lemma py_sub_safe: "float_safe a \<Longrightarrow> float_safe b \<Longrightarrow> \<exists>d. py_sub a b = Inr d"
  by (cases a; cases b) (auto simp: py_sub_def to_float_def)

lemma compare_components_safe:
  "(\<forall>v \<in> set l1. float_safe v) \<Longrightarrow> (\<forall>v \<in> set l2. float_safe v) \<Longrightarrow>
     \<exists>b. compare_components tol xy l1 l2 = Inr b"
proof (induction l1 arbitrary: l2)
  case Nil
  show ?case by auto
next
  case (Cons x xs)
  show ?case
  proof (cases l2)
    case Nil
    then show ?thesis by auto
  next
    case (Cons y ys)
    from Cons.prems Cons obtain d where d: "py_sub x y = Inr d"
      using py_sub_safe [of x y] by auto
    from Cons.prems Cons Cons.IH [of ys]
    obtain b where "compare_components tol xy xs ys = Inr b" by auto
    with d Cons show ?thesis by (auto simp: Let_def)
  qed
qed

text \<open>
  C6: comparing two dicts is one-directional containment. The result is \<^verbatim>\<open>True\<close> exactly
  when every key of the first dict is a key of the second with a value that compares
  \<^verbatim>\<open>True\<close>; the result depends on the second dict only through the keys of the first, so
  keys that only the second dict has are ignored; and the comparison is not symmetric:
  \<^verbatim>\<open>{"a": 1}\<close> against \<^verbatim>\<open>{"a": 1, "b": 2}\<close> is \<^verbatim>\<open>True\<close> at tolerance 0, the reverse
  is \<^verbatim>\<open>False\<close>.
\<close>

theorem compare_dicts_containment:
  "(compare_values tol (PDict a) (PDict b) = Inr True \<longleftrightarrow>
      (\<forall>(k, v) \<in> set a. \<exists>v2. map_of b k = Some v2 \<and> compare_values tol v v2 = Inr True))
   \<and> ((\<forall>k \<in> fst ` set a. map_of b k = map_of b' k) \<longrightarrow>
        compare_values tol (PDict a) (PDict b) = compare_values tol (PDict a) (PDict b'))
   \<and> compare_values (Fin 0) (PDict [(''a'', PInt 1)]) (PDict [(''a'', PInt 1), (''b'', PInt 2)])
        = Inr True
   \<and> compare_values (Fin 0) (PDict [(''a'', PInt 1), (''b'', PInt 2)]) (PDict [(''a'', PInt 1)])
        = Inr False"
proof (intro conjI impI)
  show "compare_values tol (PDict a) (PDict b) = Inr True \<longleftrightarrow>
      (\<forall>(k, v) \<in> set a. \<exists>v2. map_of b k = Some v2 \<and> compare_values tol v v2 = Inr True)"
    by (simp only: compare_values_dict compare_dicts_True_iff)
next
  assume "\<forall>k \<in> fst ` set a. map_of b k = map_of b' k"
  then show "compare_values tol (PDict a) (PDict b) = compare_values tol (PDict a) (PDict b')"
    by (simp only: compare_values_dict compare_dicts_cong_keys [of a b b'])
next
  show "compare_values (Fin 0) (PDict [(''a'', PInt 1)]) (PDict [(''a'', PInt 1), (''b'', PInt 2)])
        = Inr True"
    by (simp add: compare_values.simps compare_numbers_def py_sub_def)
next
  show "compare_values (Fin 0) (PDict [(''a'', PInt 1), (''b'', PInt 2)]) (PDict [(''a'', PInt 1)])
        = Inr False"
    by (simp add: compare_values.simps compare_numbers_def py_sub_def)
qed

theorem compare_dicts_containment_witness:
  "compare_values (Fin 3) (PDict [(''brightness'', PInt 100)])
       (PDict [(''brightness'', PInt 102), (''effect'', PStr ''colorloop'')]) = Inr True
   \<and> compare_values (Fin 3) (PDict [(''brightness'', PInt 100)])
       (PDict [(''brightness'', PInt 102), (''effect'', PStr ''colorloop'')])
     = compare_values (Fin 3) (PDict [(''brightness'', PInt 100)]) (PDict [(''brightness'', PInt 102)])"
proof -
  let ?a = "[(''brightness'', PInt 100)]"
  let ?b = "[(''brightness'', PInt 102), (''effect'', PStr ''colorloop'')]"
  let ?b' = "[(''brightness'', PInt 102)]"
  note inst = compare_dicts_containment [where tol = "Fin 3" and a = ?a and b = ?b and b' = ?b']
  have contained:
    "\<forall>(k, v) \<in> set ?a. \<exists>v2. map_of ?b k = Some v2 \<and> compare_values (Fin 3) v v2 = Inr True"
    by (simp add: compare_values.simps compare_numbers_def py_sub_def)
  have same: "\<forall>k \<in> fst ` set ?a. map_of ?b k = map_of ?b' k"
    by simp
  from inst contained have "compare_values (Fin 3) (PDict ?a) (PDict ?b) = Inr True"
    by blast
  moreover from inst same
  have "compare_values (Fin 3) (PDict ?a) (PDict ?b) = compare_values (Fin 3) (PDict ?a) (PDict ?b')"
    by blast
  ultimately show ?thesis by blast
qed

text \<open>
  C7: two sequences (lists or tuples) are compared over the zipped prefix only, up to the
  length of the shorter one: the result is that of comparing the two prefixes, it is
  \<^verbatim>\<open>True\<close> exactly when every pair of the prefix compares \<^verbatim>\<open>True\<close>, and elements that
  the longer sequence has beyond the shorter one change nothing. \<^verbatim>\<open>[1, 2, 3]\<close> against
  \<^verbatim>\<open>[1, 2]\<close> is \<^verbatim>\<open>True\<close> at tolerance 0.
\<close>

theorem compare_lists_shorter_prefix:
  "(is_seq a \<and> is_seq b \<longrightarrow>
      compare_values tol a b =
        compare_lists tol
          (take (min (length (seq_items a)) (length (seq_items b))) (seq_items a))
          (take (min (length (seq_items a)) (length (seq_items b))) (seq_items b)))
   \<and> (is_seq a \<and> is_seq b \<longrightarrow>
        (compare_values tol a b = Inr True \<longleftrightarrow>
           (\<forall>i < min (length (seq_items a)) (length (seq_items b)).
               compare_values tol (seq_items a ! i) (seq_items b ! i) = Inr True)))
   \<and> (length lb \<le> length la \<longrightarrow>
        compare_values tol (PList (la @ extra)) (PList lb) = compare_values tol (PList la) (PList lb))
   \<and> (length la \<le> length lb \<longrightarrow>
        compare_values tol (PList la) (PList (lb @ extra)) = compare_values tol (PList la) (PList lb))
   \<and> compare_values (Fin 0) (PList [PInt 1, PInt 2, PInt 3]) (PList [PInt 1, PInt 2]) = Inr True"
proof (intro conjI impI)
  assume "is_seq a \<and> is_seq b"
  then show "compare_values tol a b =
        compare_lists tol
          (take (min (length (seq_items a)) (length (seq_items b))) (seq_items a))
          (take (min (length (seq_items a)) (length (seq_items b))) (seq_items b))"
    using compare_lists_take [of tol "seq_items a" "seq_items b"]
    by (simp only: compare_values_seq)
next
  assume "is_seq a \<and> is_seq b"
  then show "compare_values tol a b = Inr True \<longleftrightarrow>
           (\<forall>i < min (length (seq_items a)) (length (seq_items b)).
               compare_values tol (seq_items a ! i) (seq_items b ! i) = Inr True)"
    by (simp only: compare_values_seq compare_lists_True_iff)
next
  assume "length lb \<le> length la"
  then show "compare_values tol (PList (la @ extra)) (PList lb)
      = compare_values tol (PList la) (PList lb)"
    by (simp add: compare_values_seq compare_lists_append_left)
next
  assume "length la \<le> length lb"
  then show "compare_values tol (PList la) (PList (lb @ extra))
      = compare_values tol (PList la) (PList lb)"
    by (simp add: compare_values_seq compare_lists_append_right)
next
  show "compare_values (Fin 0) (PList [PInt 1, PInt 2, PInt 3]) (PList [PInt 1, PInt 2]) = Inr True"
    by (simp add: compare_values.simps compare_numbers_def py_sub_def)
qed

theorem compare_lists_shorter_prefix_witness:
  "compare_values (Fin 5) (PList [PInt 255, PInt 0, PInt 0, PInt 40]) (PTuple [PInt 254, PInt 1, PInt 0])
     = compare_lists (Fin 5) [PInt 255, PInt 0, PInt 0] [PInt 254, PInt 1, PInt 0]
   \<and> compare_values (Fin 5) (PList ([PInt 255, PInt 0, PInt 0] @ [PInt 40])) (PList [PInt 254, PInt 1, PInt 0])
     = compare_values (Fin 5) (PList [PInt 255, PInt 0, PInt 0]) (PList [PInt 254, PInt 1, PInt 0])"
proof -
  let ?a = "PList [PInt 255, PInt 0, PInt 0, PInt 40]"
  let ?b = "PTuple [PInt 254, PInt 1, PInt 0]"
  have seqs: "is_seq ?a \<and> is_seq ?b" by simp
  have len: "length [PInt 254, PInt 1, PInt 0] \<le> length [PInt 255, PInt 0, PInt 0]" by simp
  from compare_lists_shorter_prefix [where a = ?a and b = ?b and tol = "Fin 5"] seqs
  have "compare_values (Fin 5) ?a ?b =
        compare_lists (Fin 5)
          (take (min (length (seq_items ?a)) (length (seq_items ?b))) (seq_items ?a))
          (take (min (length (seq_items ?a)) (length (seq_items ?b))) (seq_items ?b))"
    by blast
  then have first: "compare_values (Fin 5) ?a ?b
      = compare_lists (Fin 5) [PInt 255, PInt 0, PInt 0] [PInt 254, PInt 1, PInt 0]"
    by simp
  from compare_lists_shorter_prefix
         [where la = "[PInt 255, PInt 0, PInt 0]" and lb = "[PInt 254, PInt 1, PInt 0]"
            and tol = "Fin 5" and extra = "[PInt 40]"] len
  have "compare_values (Fin 5) (PList ([PInt 255, PInt 0, PInt 0] @ [PInt 40])) (PList [PInt 254, PInt 1, PInt 0])
     = compare_values (Fin 5) (PList [PInt 255, PInt 0, PInt 0]) (PList [PInt 254, PInt 1, PInt 0])"
    by blast
  with first show ?thesis by blast
qed

text \<open>
  C8 as stated, reflexivity of the comparison at tolerance 0 for every value, fails for the
  float NaN: \<^verbatim>\<open>abs(nan - nan) <= 0\<close> is false.
\<close>

theorem compare_values_nan_not_reflexive:
  "compare_values (Fin 0) (PFloat NaN) (PFloat NaN) = Inr False"
  by (simp add: compare_values.simps compare_numbers_def py_sub_def)

text \<open>
  C8, amended: the comparison is reflexive at tolerance 0 on every value that contains no
  NaN and no infinite float, for every shape: \<^verbatim>\<open>None\<close>, boolean, number, string,
  sequence, dict, and any nesting of these.
\<close>

theorem compare_values_reflexive:
  "distinct_keys a \<Longrightarrow> finite_floats a \<Longrightarrow> compare_values (Fin 0) a a = Inr True"
proof (induction a)
  case PNone
  show ?case by (simp add: compare_values.simps eq_other_def)
next
  case (PBool b)
  show ?case by (simp add: compare_values.simps compare_numbers_def py_sub_def)
next
  case (PInt i)
  show ?case by (simp add: compare_values.simps compare_numbers_def py_sub_def)
next
  case (PFloat f)
  then show ?case by (cases f) (simp_all add: compare_values.simps compare_numbers_def py_sub_def)
next
  case (PStr s)
  show ?case by (simp add: compare_values.simps eq_other_def)
next
  case (PList l)
  then show ?case by (simp add: compare_values.simps compare_lists_refl)
next
  case (PTuple l)
  then show ?case by (simp add: compare_values.simps compare_lists_refl)
next
  case (PDict d)
  have "compare_dicts (Fin 0) d d = Inr True"
  proof (rule compare_dicts_refl)
    show "distinct (map fst d)" using PDict.prems by simp
    show "\<forall>kv \<in> set d. compare_values (Fin 0) (snd kv) (snd kv) = Inr True"
    proof
      fix kv assume "kv \<in> set d"
      moreover have "snd kv \<in> Basic_BNFs.snds kv" by (cases kv) simp
      ultimately show "compare_values (Fin 0) (snd kv) (snd kv) = Inr True"
        using PDict.IH [of kv "snd kv"] PDict.prems by simp
    qed
  qed
  then show ?case by (simp add: compare_values.simps)
qed

theorem compare_values_reflexive_witness:
  "compare_values (Fin 0)
     (PDict [(''state'', PStr ''on''), (''brightness'', PInt 100),
             (''xy_color'', PTuple [PFloat (Fin (1 / 2)), PFloat (Fin (1 / 4))]),
             (''nested'', PDict [(''flag'', PBool True), (''nothing'', PNone)])])
     (PDict [(''state'', PStr ''on''), (''brightness'', PInt 100),
             (''xy_color'', PTuple [PFloat (Fin (1 / 2)), PFloat (Fin (1 / 4))]),
             (''nested'', PDict [(''flag'', PBool True), (''nothing'', PNone)])])
   = Inr True"
  by (rule compare_values_reflexive) simp_all

text \<open>
  C2 as stated, \<^verbatim>\<open>compare_colors\<close> never raises and returns a boolean for every input
  shape, fails for two lists whose components are not numbers: the subtraction of the
  first pair of components raises \<^verbatim>\<open>TypeError\<close>.
\<close>

theorem compare_colors_raises_on_strings:
  "compare_colors (Fin 3) (PList [PStr ''255'', PStr ''0'', PStr ''0''])
     (PList [PInt 255, PInt 0, PInt 0]) False = Inl TypeError"
  by (simp add: compare_colors_def py_sub_def)

text \<open>
  C2, amended: for every tolerance, \<^verbatim>\<open>compare_colors\<close> returns \<^verbatim>\<open>True\<close> for two
  \<^verbatim>\<open>None\<close>, \<^verbatim>\<open>False\<close> when exactly one side is \<^verbatim>\<open>None\<close>, \<^verbatim>\<open>False\<close> when neither
  side is \<^verbatim>\<open>None\<close> and neither is a list or tuple, and it returns a boolean without
  raising when both sides are lists or tuples of numbers (integers within the range of a
  float). Nothing is said of one sequence against a value that is not one.
\<close>

theorem compare_colors_returns:
  "compare_colors tol PNone PNone xy = Inr True
   \<and> (c \<noteq> PNone \<longrightarrow>
        compare_colors tol PNone c xy = Inr False \<and> compare_colors tol c PNone xy = Inr False)
   \<and> (ca \<noteq> PNone \<and> cb \<noteq> PNone \<and> \<not> is_seq ca \<and> \<not> is_seq cb \<longrightarrow>
        compare_colors tol ca cb xy = Inr False)
   \<and> (is_seq sa \<and> is_seq sb \<and> (\<forall>v \<in> set (seq_items sa). float_safe v)
        \<and> (\<forall>v \<in> set (seq_items sb). float_safe v) \<longrightarrow>
        (\<exists>b. compare_colors tol sa sb xy = Inr b))"
proof (intro conjI impI)
  show "compare_colors tol PNone PNone xy = Inr True"
    by (simp add: compare_colors_def)
next
  assume "c \<noteq> PNone"
  then show "compare_colors tol PNone c xy = Inr False"
    by (simp add: compare_colors_def)
next
  assume "c \<noteq> PNone"
  then show "compare_colors tol c PNone xy = Inr False"
    by (simp add: compare_colors_def)
next
  assume "ca \<noteq> PNone \<and> cb \<noteq> PNone \<and> \<not> is_seq ca \<and> \<not> is_seq cb"
  then show "compare_colors tol ca cb xy = Inr False"
    by (simp add: compare_colors_def)
next
  assume h: "is_seq sa \<and> is_seq sb \<and> (\<forall>v \<in> set (seq_items sa). float_safe v)
        \<and> (\<forall>v \<in> set (seq_items sb). float_safe v)"
  then have it: "py_iter sa = Inr (seq_items sa)" "py_iter sb = Inr (seq_items sb)"
    by (cases sa; simp; cases sb; simp)+
  from h have ne: "sa \<noteq> PNone" "sb \<noteq> PNone" by auto
  from h obtain b where "compare_components tol xy (seq_items sa) (seq_items sb) = Inr b"
    using compare_components_safe [of "seq_items sa" "seq_items sb" tol xy] by blast
  with h it ne show "\<exists>b. compare_colors tol sa sb xy = Inr b"
    by (simp add: compare_colors_def)
qed

theorem compare_colors_returns_witness:
  "compare_colors (Fin 5) PNone (PList [PInt 255, PInt 0, PInt 0]) False = Inr False
   \<and> compare_colors (Fin 5) (PStr ''red'') (PStr ''red'') False = Inr False
   \<and> (\<exists>b. compare_colors (Fin 5) (PList [PInt 255, PInt 0, PInt 0])
             (PTuple [PInt 254, PInt 1, PInt 0]) False = Inr b)"
proof -
  let ?l = "PList [PInt 255, PInt 0, PInt 0]"
  let ?t = "PTuple [PInt 254, PInt 1, PInt 0]"
  note inst = compare_colors_returns [where tol = "Fin 5" and xy = False and c = ?l
      and ca = "PStr ''red''" and cb = "PStr ''red''" and sa = ?l and sb = ?t]
  have h1: "?l \<noteq> PNone" by simp
  have h2: "PStr ''red'' \<noteq> PNone \<and> PStr ''red'' \<noteq> PNone
      \<and> \<not> is_seq (PStr ''red'') \<and> \<not> is_seq (PStr ''red'')" by simp
  have h3: "is_seq ?l \<and> is_seq ?t \<and> (\<forall>v \<in> set (seq_items ?l). float_safe v)
        \<and> (\<forall>v \<in> set (seq_items ?t). float_safe v)"
    by (simp add: float_int_limit_def)
  from inst h1 h2 h3 show ?thesis by blast
qed

section \<open>Properties of the scene\<close>

lemma attributes_match_True_iff:
  "attributes_match tol d1 d2 as = Inr True \<longleftrightarrow>
     (\<forall>a \<in> set as. \<forall>v1 v2. map_of d1 a = Some v1 \<and> map_of d2 a = Some v2 \<longrightarrow>
         compare_attribute tol a v1 v2 = Inr True)"
  by (induction as) (auto split: option.splits sum.splits bool.splits)

lemma attributes_match_first:
  assumes "\<forall>b \<in> set before. \<forall>w1 w2. map_of d1 b = Some w1 \<and> map_of d2 b = Some w2 \<longrightarrow>
             compare_attribute tol b w1 w2 = Inr True"
    and "map_of d1 a = Some v1" and "map_of d2 a = Some v2"
  shows "attributes_match tol d1 d2 (before @ a # after) =
     (case compare_attribute tol a v1 v2 of
        Inl e \<Rightarrow> Inl e
      | Inr False \<Rightarrow> Inr False
      | Inr True \<Rightarrow> attributes_match tol d1 d2 after)"
  using assms by (induction before) (auto split: option.splits)

lemma check_state_frame:
  "entities s' = entities s \<Longrightarrow> ignore_unavailable s' = ignore_unavailable s \<Longrightarrow>
     number_tolerance s' = number_tolerance s \<Longrightarrow>
     check_state atc s' e obs = check_state atc s e obs"
  by (simp add: check_state_def cong: option.case_cong sum.case_cong bool.case_cong if_cong)

lemma check_state_present:
  assumes "obs = Some st" and "\<not> (ignore_unavailable s \<and> state st = ''unavailable'')"
    and "map_of (entities s) eid = Some target" and "map_of target ''state'' = Some target_state"
  shows "check_state atc s eid obs =
     (case compare_values (number_tolerance s) target_state (PStr (state st)) of
        Inl e \<Rightarrow> Inl e
      | Inr False \<Rightarrow> Inr (Some False)
      | Inr True \<Rightarrow>
          (case attributes_match (number_tolerance s) target (attributes st)
                  (allow_list atc (domain st)) of
             Inl e \<Rightarrow> Inl e
           | Inr m \<Rightarrow> Inr (Some m)))"
  using assms
  by (cases "map_of atc (domain st)")
    (auto simp: check_state_def allow_list_def split: sum.splits bool.splits)

lemma is_interesting_update_frame:
  "number_tolerance s' = number_tolerance s \<Longrightarrow>
     is_interesting_update atc s' old new = is_interesting_update atc s old new"
  by (simp add: is_interesting_update_def
      cong: option.case_cong sum.case_cong bool.case_cong)

lemma check_all_loop_shape:
  "\<exists>st io. snd (check_all_loop atc s es) = s\<lparr>states := st, is_on := io\<rparr>"
proof (induction es arbitrary: s)
  case Nil
  have "s = s\<lparr>states := states s, is_on := is_on s\<rparr>" by simp
  then show ?case by (intro exI [of _ "states s"] exI [of _ "is_on s"]) simp
next
  case (Cons e es)
  show ?case
  proof (cases "check_state atc s e (states_get (hass s) e)")
    case (Inl err)
    have "s = s\<lparr>states := states s, is_on := is_on s\<rparr>" by simp
    with Inl show ?thesis by (intro exI [of _ "states s"] exI [of _ "is_on s"]) simp
  next
    case (Inr r)
    let ?s1 = "s\<lparr>states := AList.update e r (states s)\<rparr>"
    show ?thesis
    proof (cases "\<not> restore_on_deactivate s \<and> \<not> truthy r")
      case True
      with Inr have "snd (check_all_loop atc s (e # es)) = s\<lparr>states := AList.update e r (states s), is_on := Some False\<rparr>"
        by (simp add: Let_def)
      then show ?thesis by blast
    next
      case False
      with Inr have eq: "check_all_loop atc s (e # es) = check_all_loop atc ?s1 es"
        by (auto simp: Let_def)
      from Cons.IH [of ?s1] obtain st io where
        "snd (check_all_loop atc ?s1 es) = ?s1\<lparr>states := st, is_on := io\<rparr>" by blast
      with eq have "snd (check_all_loop atc s (e # es)) = s\<lparr>states := st, is_on := io\<rparr>" by simp
      then show ?thesis by blast
    qed
  qed
qed

lemma check_all_states_shape:
  "\<exists>st io. snd (check_all_states atc s) = s\<lparr>states := st, is_on := io\<rparr>"
proof -
  obtain r s1 where loop: "check_all_loop atc s (map fst (entities s)) = (r, s1)"
    by (cases "check_all_loop atc s (map fst (entities s))")
  from check_all_loop_shape [of atc s "map fst (entities s)"] loop
  obtain st io where s1: "s1 = s\<lparr>states := st, is_on := io\<rparr>" by auto
  show ?thesis
  proof (cases r)
    case (Inl e)
    with loop s1 show ?thesis by (auto simp: check_all_states_def)
  next
    case (Inr b)
    with loop s1 show ?thesis
      by (cases b) (auto simp: check_all_states_def Let_def)
  qed
qed

lemma check_all_loop_restore_states:
  "check_all_loop atc (s\<lparr>restore_states := rs\<rparr>) es =
     (fst (check_all_loop atc s es), (snd (check_all_loop atc s es))\<lparr>restore_states := rs\<rparr>)"
proof (induction es arbitrary: s)
  case Nil
  show ?case by simp
next
  case (Cons e es)
  have frame: "\<And>obs. check_state atc (s\<lparr>restore_states := rs\<rparr>) e obs = check_state atc s e obs"
    by (rule check_state_frame) simp_all
  show ?case
  proof (cases "check_state atc s e (states_get (hass s) e)")
    case (Inl err)
    then show ?thesis by (simp add: frame)
  next
    case (Inr r)
    show ?thesis
    proof (cases "\<not> restore_on_deactivate s \<and> \<not> truthy r")
      case True
      with Inr show ?thesis by (simp add: frame Let_def)
    next
      case False
      let ?st = "AList.update e r (states s)"
      have swap: "s\<lparr>restore_states := rs, states := ?st\<rparr> = s\<lparr>states := ?st, restore_states := rs\<rparr>"
        by (cases s) simp
      from Inr False
      have "check_all_loop atc (s\<lparr>restore_states := rs\<rparr>) (e # es)
          = check_all_loop atc (s\<lparr>restore_states := rs, states := ?st\<rparr>) es"
        by (auto simp: frame Let_def)
      also have "\<dots> = check_all_loop atc (s\<lparr>states := ?st, restore_states := rs\<rparr>) es"
        by (simp only: swap)
      also have "\<dots> = (fst (check_all_loop atc (s\<lparr>states := ?st\<rparr>) es),
              (snd (check_all_loop atc (s\<lparr>states := ?st\<rparr>) es))\<lparr>restore_states := rs\<rparr>)"
        by (rule Cons.IH)
      also from Inr False
      have "check_all_loop atc (s\<lparr>states := ?st\<rparr>) es = check_all_loop atc s (e # es)"
        by (auto simp: Let_def)
      finally show ?thesis .
    qed
  qed
qed

lemma check_all_states_restore_states:
  "check_all_states atc (s\<lparr>restore_states := rs\<rparr>) =
     (fst (check_all_states atc s), (snd (check_all_states atc s))\<lparr>restore_states := rs\<rparr>)"
proof -
  obtain res s1 where loop: "check_all_loop atc s (map fst (entities s)) = (res, s1)"
    by (cases "check_all_loop atc s (map fst (entities s))")
  then have loop': "check_all_loop atc (s\<lparr>restore_states := rs\<rparr>) (map fst (entities s))
      = (res, s1\<lparr>restore_states := rs\<rparr>)"
    by (simp add: check_all_loop_restore_states)
  show ?thesis
  proof (cases res)
    case (Inl err)
    with loop loop' show ?thesis by (simp add: check_all_states_def)
  next
    case (Inr b)
    with loop loop' show ?thesis
      by (cases b) (simp_all add: check_all_states_def Let_def)
  qed
qed

lemma map_of_fold_update:
  "map_of (fold (\<lambda>p. AList.update p v) ps st) x = (if x \<in> set ps then Some v else map_of st x)"
  by (induction ps arbitrary: st) (auto simp: update_conv')

lemma loop_short_circuit:
  assumes "\<not> restore_on_deactivate s"
    and "\<forall>p \<in> set pre. check_state atc s p (states_get (hass s) p) = Inr (Some True)"
    and "check_state atc s e (states_get (hass s) e) = Inr r"
    and "\<not> truthy r"
  shows "check_all_loop atc s (pre @ e # post) =
     (Inr False, s\<lparr>states := AList.update e r (fold (\<lambda>p. AList.update p (Some True)) pre (states s)),
                   is_on := Some False\<rparr>)"
  using assms
proof (induction pre arbitrary: s)
  case Nil
  then show ?case by (simp add: Let_def)
next
  case (Cons p pre)
  let ?s1 = "s\<lparr>states := AList.update p (Some True) (states s)\<rparr>"
  have frame: "\<And>x obs. check_state atc ?s1 x obs = check_state atc s x obs"
    by (rule check_state_frame) simp_all
  from Cons.prems have p: "check_state atc s p (states_get (hass s) p) = Inr (Some True)"
    by simp
  then have step: "check_all_loop atc s ((p # pre) @ e # post) = check_all_loop atc ?s1 (pre @ e # post)"
    by (simp add: Let_def)
  have "check_all_loop atc ?s1 (pre @ e # post) =
     (Inr False, ?s1\<lparr>states := AList.update e r (fold (\<lambda>p. AList.update p (Some True)) pre (states ?s1)),
                   is_on := Some False\<rparr>)"
    using Cons.prems by (intro Cons.IH) (simp_all add: frame)
  with step show ?case by simp
qed

lemma loop_full:
  assumes "restore_on_deactivate s"
    and "check_all_loop atc s es = (Inr b, s')"
  shows "b \<and> (\<forall>e \<in> set es. \<exists>r. check_state atc s e (states_get (hass s) e) = Inr r
                  \<and> map_of (states s') e = Some r)
     \<and> (\<forall>x. x \<notin> set es \<longrightarrow> map_of (states s') x = map_of (states s) x)"
  using assms
proof (induction es arbitrary: s)
  case Nil
  then show ?case by auto
next
  case (Cons e es)
  from Cons.prems(2) obtain r where r: "check_state atc s e (states_get (hass s) e) = Inr r"
    by (cases "check_state atc s e (states_get (hass s) e)") auto
  let ?s1 = "s\<lparr>states := AList.update e r (states s)\<rparr>"
  have frame: "\<And>x obs. check_state atc ?s1 x obs = check_state atc s x obs"
    by (rule check_state_frame) simp_all
  from Cons.prems r have rest: "check_all_loop atc ?s1 es = (Inr b, s')"
    by (simp add: Let_def)
  from Cons.IH [OF _ rest] Cons.prems(1)
  have ih: "b" "\<forall>x \<in> set es. \<exists>r'. check_state atc s x (states_get (hass s) x) = Inr r'
                  \<and> map_of (states s') x = Some r'"
    "\<forall>x. x \<notin> set es \<longrightarrow> map_of (states s') x = map_of (states ?s1) x"
    by (simp_all add: frame)
  have "\<exists>r'. check_state atc s e (states_get (hass s) e) = Inr r' \<and> map_of (states s') e = Some r'"
  proof (cases "e \<in> set es")
    case True
    with ih(2) show ?thesis by blast
  next
    case False
    with ih(3) have "map_of (states s') e = Some r" by (simp add: update_conv')
    with r show ?thesis by simp
  qed
  moreover have "\<forall>x. x \<notin> set (e # es) \<longrightarrow> map_of (states s') x = map_of (states s) x"
    using ih(3) by (simp add: update_conv')
  ultimately show ?case using ih(1,2) by simp
qed


text \<open>
  C4: in a scene that does not restore on deactivation, when the entities before \<open>e\<close> in
  declared order all match and \<open>e\<close> yields a result that is not \<^verbatim>\<open>True\<close>, the pass
  returns at \<open>e\<close>: the verdict is off, the result of \<open>e\<close> is cached, the cached results
  of the entities after \<open>e\<close> are what they were before the pass, and what the host would
  report for them plays no part (they are not fetched).
\<close>

theorem check_all_states_short_circuit:
  assumes "\<not> restore_on_deactivate s"
    and "map fst (entities s) = pre @ e # post"
    and "distinct (map fst (entities s))"
    and "\<forall>p \<in> set pre. check_state atc s p (states_get (hass s) p) = Inr (Some True)"
    and "check_state atc s e (states_get (hass s) e) = Inr r"
    and "r \<noteq> Some True"
  shows "fst (check_all_states atc s) = Inr ()
     \<and> is_on (snd (check_all_states atc s)) = Some False
     \<and> map_of (states (snd (check_all_states atc s))) e = Some r
     \<and> (\<forall>x \<in> set post. map_of (states (snd (check_all_states atc s))) x = map_of (states s) x)
     \<and> (\<forall>h. (\<forall>x \<in> set (pre @ [e]). states_get h x = states_get (hass s) x) \<longrightarrow>
            states (snd (check_all_states atc (s\<lparr>hass := h\<rparr>))) = states (snd (check_all_states atc s))
          \<and> is_on (snd (check_all_states atc (s\<lparr>hass := h\<rparr>))) = Some False)"
proof -
  let ?st = "AList.update e r (fold (\<lambda>p. AList.update p (Some True)) pre (states s))"
  from assms(6) have falsy: "\<not> truthy r" by (cases r) auto
  have loop: "check_all_loop atc s (pre @ e # post) = (Inr False, s\<lparr>states := ?st, is_on := Some False\<rparr>)"
    using assms(1,4,5) falsy by (rule loop_short_circuit)
  then have res: "check_all_states atc s = (Inr (), s\<lparr>states := ?st, is_on := Some False\<rparr>)"
    by (simp add: check_all_states_def assms(2))
  have later: "\<forall>x \<in> set post. map_of ?st x = map_of (states s) x"
    using assms(2,3) by (auto simp: update_conv' map_of_fold_update)
  have other: "\<forall>h. (\<forall>x \<in> set (pre @ [e]). states_get h x = states_get (hass s) x) \<longrightarrow>
      check_all_states atc (s\<lparr>hass := h\<rparr>) = (Inr (), s\<lparr>hass := h, states := ?st, is_on := Some False\<rparr>)"
  proof (intro allI impI)
    fix h :: home_assistant
    assume agree: "\<forall>x \<in> set (pre @ [e]). states_get h x = states_get (hass s) x"
    let ?s = "s\<lparr>hass := h\<rparr>"
    have frame: "\<And>x obs. check_state atc ?s x obs = check_state atc s x obs"
      by (rule check_state_frame) simp_all
    have "check_all_loop atc ?s (pre @ e # post) =
        (Inr False, ?s\<lparr>states := AList.update e r (fold (\<lambda>p. AList.update p (Some True)) pre (states ?s)),
                      is_on := Some False\<rparr>)"
    proof (rule loop_short_circuit)
      show "\<not> restore_on_deactivate ?s" using assms(1) by simp
      show "\<forall>p \<in> set pre. check_state atc ?s p (states_get (hass ?s) p) = Inr (Some True)"
        using assms(4) agree by (simp add: frame)
      show "check_state atc ?s e (states_get (hass ?s) e) = Inr r"
        using assms(5) agree by (simp add: frame)
      show "\<not> truthy r" by (rule falsy)
    qed
    then show "check_all_states atc ?s = (Inr (), s\<lparr>hass := h, states := ?st, is_on := Some False\<rparr>)"
      by (simp add: check_all_states_def assms(2))
  qed
  from res later other show ?thesis by (simp add: update_conv')
qed

theorem check_all_states_short_circuit_witness:
  "is_on (snd (check_all_states ATTRIBUTES_TO_CHECK_spec (scene_three_lights ''off''))) = Some False
   \<and> map_of (states (snd (check_all_states ATTRIBUTES_TO_CHECK_spec (scene_three_lights ''off'')))) ''light.b''
       = Some (Some False)
   \<and> map_of (states (snd (check_all_states ATTRIBUTES_TO_CHECK_spec (scene_three_lights ''off'')))) ''light.c''
       = Some (Some True)"
proof -
  let ?s = "scene_three_lights ''off''"
  let ?atc = ATTRIBUTES_TO_CHECK_spec
  have h1: "\<not> restore_on_deactivate ?s"
    by (simp add: scene_three_lights_def)
  have h2: "map fst (entities ?s) = [''light.a''] @ ''light.b'' # [''light.c'']"
    by (simp add: scene_three_lights_def scene_init_def)
  have h3: "distinct (map fst (entities ?s))"
    by (simp add: scene_three_lights_def scene_init_def)
  have h4: "\<forall>p \<in> set [''light.a'']. check_state ?atc ?s p (states_get (hass ?s) p) = Inr (Some True)"
    by (simp add: scene_three_lights_def scene_init_def host_def light_def check_state_def
        ATTRIBUTES_TO_CHECK_spec_def compare_values.simps eq_other_def compare_attribute_def
        endswith_def compare_numbers_def py_sub_def)
  have h5: "check_state ?atc ?s ''light.b'' (states_get (hass ?s) ''light.b'') = Inr (Some False)"
    by (simp add: scene_three_lights_def scene_init_def host_def light_def check_state_def
        compare_values.simps eq_other_def)
  have h6: "Some False \<noteq> Some True" by simp
  have prev: "map_of (states ?s) ''light.c'' = Some (Some True)"
    by (simp add: scene_three_lights_def)
  from check_all_states_short_circuit [OF h1 h2 h3 h4 h5 h6] prev
  show ?thesis by simp
qed

text \<open>
  C10: in a scene that does not restore on deactivation and ignores unavailable entities,
  an unavailable entity (result \<^verbatim>\<open>None\<close>) after entities that match ends the pass as a
  mismatch does: the verdict is off, \<^verbatim>\<open>None\<close> is cached for it and the entities after
  it keep their cached results. The unknown result is not left out of the verdict.
\<close>

theorem unknown_short_circuits:
  assumes "\<not> restore_on_deactivate s"
    and "ignore_unavailable s"
    and "map fst (entities s) = pre @ e # post"
    and "distinct (map fst (entities s))"
    and "\<forall>p \<in> set pre. check_state atc s p (states_get (hass s) p) = Inr (Some True)"
    and "states_get (hass s) e = Some st"
    and "state st = ''unavailable''"
  shows "check_state atc s e (states_get (hass s) e) = Inr None
     \<and> fst (check_all_states atc s) = Inr ()
     \<and> is_on (snd (check_all_states atc s)) = Some False
     \<and> map_of (states (snd (check_all_states atc s))) e = Some None
     \<and> (\<forall>x \<in> set post. map_of (states (snd (check_all_states atc s))) x = map_of (states s) x)"
proof -
  let ?st = "AList.update e None (fold (\<lambda>p. AList.update p (Some True)) pre (states s))"
  have unknown: "check_state atc s e (states_get (hass s) e) = Inr None"
    using assms(2,6,7) by (simp add: check_state_def)
  have "check_all_loop atc s (pre @ e # post) = (Inr False, s\<lparr>states := ?st, is_on := Some False\<rparr>)"
    using assms(1,5) unknown by (rule loop_short_circuit) simp
  then have res: "check_all_states atc s = (Inr (), s\<lparr>states := ?st, is_on := Some False\<rparr>)"
    by (simp add: check_all_states_def assms(3))
  have later: "\<forall>x \<in> set post. map_of ?st x = map_of (states s) x"
    using assms(3,4) by (auto simp: update_conv' map_of_fold_update)
  from unknown res later show ?thesis by (simp add: update_conv')
qed

theorem unknown_short_circuits_witness:
  "check_state ATTRIBUTES_TO_CHECK_spec ((scene_three_lights ''unavailable'')\<lparr>ignore_unavailable := True\<rparr>)
       ''light.b'' (Some (light ''unavailable'' [])) = Inr None
   \<and> is_on (snd (check_all_states ATTRIBUTES_TO_CHECK_spec
         ((scene_three_lights ''unavailable'')\<lparr>ignore_unavailable := True\<rparr>))) = Some False"
proof -
  let ?s = "(scene_three_lights ''unavailable'')\<lparr>ignore_unavailable := True\<rparr>"
  let ?atc = ATTRIBUTES_TO_CHECK_spec
  have h1: "\<not> restore_on_deactivate ?s"
    by (simp add: scene_three_lights_def)
  have h2: "ignore_unavailable ?s" by simp
  have h3: "map fst (entities ?s) = [''light.a''] @ ''light.b'' # [''light.c'']"
    by (simp add: scene_three_lights_def scene_init_def)
  have h4: "distinct (map fst (entities ?s))"
    by (simp add: scene_three_lights_def scene_init_def)
  have h5: "\<forall>p \<in> set [''light.a'']. check_state ?atc ?s p (states_get (hass ?s) p) = Inr (Some True)"
    by (simp add: scene_three_lights_def scene_init_def host_def light_def check_state_def
        ATTRIBUTES_TO_CHECK_spec_def compare_values.simps eq_other_def compare_attribute_def
        endswith_def compare_numbers_def py_sub_def)
  have h6: "states_get (hass ?s) ''light.b'' = Some (light ''unavailable'' [])"
    by (simp add: scene_three_lights_def scene_init_def host_def)
  have h7: "state (light ''unavailable'' []) = ''unavailable''"
    by (simp add: light_def)
  from unknown_short_circuits [OF h1 h2 h3 h4 h5 h6 h7] h6
  show ?thesis by simp
qed

text \<open>
  C1 says that after a full pass the verdict is on exactly when the results that are not
  \<^verbatim>\<open>None\<close> are not empty and all \<^verbatim>\<open>True\<close>, so that a scene whose entities are all
  unknown is off. In the code the assignment of \<^verbatim>\<open>False\<close> for the empty list is
  overwritten by \<^verbatim>\<open>all([])\<close>: the pass over a scene whose only light is unavailable and
  ignored completes, caches \<^verbatim>\<open>None\<close> for the light, and leaves the scene on.
\<close>

theorem all_unknown_verdict_on:
  "fst (check_all_states ATTRIBUTES_TO_CHECK_spec scene_unavailable) = Inr ()
   \<and> states (snd (check_all_states ATTRIBUTES_TO_CHECK_spec scene_unavailable)) = [(''light.a'', None)]
   \<and> is_on (snd (check_all_states ATTRIBUTES_TO_CHECK_spec scene_unavailable)) = Some True"
  by (simp add: check_all_states_def scene_unavailable_def scene_init_def host_def light_def
      check_state_def)

text \<open>
  C3 as stated, the cached result of an entity is always the result of checking its kept
  state object, fails: the callback keeps the \<^emph>\<open>old\<close> state of the event and caches no
  result, the pass caches the result for the state that the host reports and keeps no
  state object. After the light changed from off to on and a pass ran, the cached result
  is \<^verbatim>\<open>True\<close>, the kept state is the off state, and checking the kept state gives
  \<^verbatim>\<open>False\<close>.
\<close>

theorem cached_result_not_of_kept_state:
  "map_of (states (snd (check_all_states ATTRIBUTES_TO_CHECK_spec
        (snd (update_callback ATTRIBUTES_TO_CHECK_spec scene_one_light turned_on))))) ''light.a''
     = Some (Some True)
   \<and> map_of (restore_states (snd (check_all_states ATTRIBUTES_TO_CHECK_spec
        (snd (update_callback ATTRIBUTES_TO_CHECK_spec scene_one_light turned_on))))) ''light.a''
     = Some (Some (light ''off'' []))
   \<and> check_state ATTRIBUTES_TO_CHECK_spec
        (snd (check_all_states ATTRIBUTES_TO_CHECK_spec
           (snd (update_callback ATTRIBUTES_TO_CHECK_spec scene_one_light turned_on))))
        ''light.a'' (Some (light ''off'' []))
     = Inr (Some False)"
  by (simp add: check_all_states_def update_callback_def store_entity_state_def
      scene_one_light_def turned_on_def scene_init_def host_def light_def check_state_def
      ATTRIBUTES_TO_CHECK_spec_def compare_values.simps eq_other_def Let_def)

text \<open>
  C3, amended: the two caches are written separately. \<^verbatim>\<open>update_callback\<close> stores the
  old state of its event for the entity and leaves the cached results and the verdict as
  they are; \<^verbatim>\<open>check_all_states\<close> leaves the kept states as they are; and after a pass
  that completed in a scene that restores on deactivation, the cached result of every
  entity is the result of checking the state that the host reported during the pass.
  The kept states are never compared: whatever they are, \<^verbatim>\<open>check_state\<close> gives the
  same result, \<^verbatim>\<open>check_all_states\<close> the same outcome, cached results and verdict, and
  \<^verbatim>\<open>update_callback\<close> the same outcome.
\<close>

theorem caches_updated_separately:
  "states (snd (update_callback atc s ev)) = states s
   \<and> is_on (snd (update_callback atc s ev)) = is_on s
   \<and> restore_states (snd (update_callback atc s ev))
       = AList.update (ev_entity_id ev) (old_state ev) (restore_states s)
   \<and> restore_states (snd (check_all_states atc s)) = restore_states s
   \<and> (restore_on_deactivate s \<and> fst (check_all_states atc s) = Inr () \<longrightarrow>
        (\<forall>e \<in> set (map fst (entities s)).
           \<exists>r. check_state atc s e (states_get (hass s) e) = Inr r
              \<and> map_of (states (snd (check_all_states atc s))) e = Some r))
   \<and> check_state atc (s\<lparr>restore_states := rs\<rparr>) eid obs = check_state atc s eid obs
   \<and> fst (check_all_states atc (s\<lparr>restore_states := rs\<rparr>)) = fst (check_all_states atc s)
   \<and> states (snd (check_all_states atc (s\<lparr>restore_states := rs\<rparr>)))
       = states (snd (check_all_states atc s))
   \<and> is_on (snd (check_all_states atc (s\<lparr>restore_states := rs\<rparr>)))
       = is_on (snd (check_all_states atc s))
   \<and> fst (update_callback atc (s\<lparr>restore_states := rs\<rparr>) ev) = fst (update_callback atc s ev)"
proof (intro conjI impI)
  show "check_state atc (s\<lparr>restore_states := rs\<rparr>) eid obs = check_state atc s eid obs"
    by (rule check_state_frame) simp_all
  show "fst (check_all_states atc (s\<lparr>restore_states := rs\<rparr>)) = fst (check_all_states atc s)"
    by (simp add: check_all_states_restore_states)
  show "states (snd (check_all_states atc (s\<lparr>restore_states := rs\<rparr>)))
       = states (snd (check_all_states atc s))"
    by (simp add: check_all_states_restore_states)
  show "is_on (snd (check_all_states atc (s\<lparr>restore_states := rs\<rparr>)))
       = is_on (snd (check_all_states atc s))"
    by (simp add: check_all_states_restore_states)
  show "fst (update_callback atc (s\<lparr>restore_states := rs\<rparr>) ev) = fst (update_callback atc s ev)"
    unfolding update_callback_def store_entity_state_def Let_def fst_conv
    by (rule is_interesting_update_frame) simp
  show "states (snd (update_callback atc s ev)) = states s"
    by (simp add: update_callback_def store_entity_state_def Let_def)
  show "is_on (snd (update_callback atc s ev)) = is_on s"
    by (simp add: update_callback_def store_entity_state_def Let_def)
  show "restore_states (snd (update_callback atc s ev))
       = AList.update (ev_entity_id ev) (old_state ev) (restore_states s)"
    by (simp add: update_callback_def store_entity_state_def Let_def)
  show "restore_states (snd (check_all_states atc s)) = restore_states s"
    using check_all_states_shape [of atc s] by auto
next
  assume h: "restore_on_deactivate s \<and> fst (check_all_states atc s) = Inr ()"
  obtain res s1 where loop: "check_all_loop atc s (map fst (entities s)) = (res, s1)"
    by (cases "check_all_loop atc s (map fst (entities s))")
  from h loop obtain b where b: "res = Inr b"
    by (cases res) (auto simp: check_all_states_def)
  from loop_full [of s atc "map fst (entities s)" b s1] h loop b
  have full: "b"
    "\<forall>e \<in> set (map fst (entities s)). \<exists>r. check_state atc s e (states_get (hass s) e) = Inr r
        \<and> map_of (states s1) e = Some r"
    by simp_all
  from loop b full(1) have "states (snd (check_all_states atc s)) = states s1"
    by (simp add: check_all_states_def Let_def)
  with full(2)
  show "\<forall>e \<in> set (map fst (entities s)).
           \<exists>r. check_state atc s e (states_get (hass s) e) = Inr r
              \<and> map_of (states (snd (check_all_states atc s))) e = Some r"
    by simp
qed

theorem caches_updated_separately_witness:
  "restore_states (snd (update_callback ATTRIBUTES_TO_CHECK_spec scene_one_light turned_on))
     = [(''light.a'', Some (light ''off'' []))]
   \<and> states (snd (update_callback ATTRIBUTES_TO_CHECK_spec scene_one_light turned_on))
     = [(''light.a'', Some False)]
   \<and> (\<exists>r. check_state ATTRIBUTES_TO_CHECK_spec scene_one_light ''light.a''
              (states_get (hass scene_one_light) ''light.a'') = Inr r
          \<and> map_of (states (snd (check_all_states ATTRIBUTES_TO_CHECK_spec scene_one_light))) ''light.a''
              = Some r)
   \<and> check_state ATTRIBUTES_TO_CHECK_spec
        (scene_one_light\<lparr>restore_states := [(''light.a'', Some (light ''off'' []))]\<rparr>)
        ''light.a'' (Some (light ''on'' []))
     = check_state ATTRIBUTES_TO_CHECK_spec scene_one_light ''light.a'' (Some (light ''on'' []))
   \<and> is_on (snd (check_all_states ATTRIBUTES_TO_CHECK_spec
        (scene_one_light\<lparr>restore_states := [(''light.a'', Some (light ''off'' []))]\<rparr>)))
     = is_on (snd (check_all_states ATTRIBUTES_TO_CHECK_spec scene_one_light))"
proof -
  let ?atc = ATTRIBUTES_TO_CHECK_spec
  note inst = caches_updated_separately [where atc = ?atc and s = scene_one_light and ev = turned_on
      and rs = "[(''light.a'', Some (light ''off'' []))]" and eid = "''light.a''"
      and obs = "Some (light ''on'' [])"]
  have h: "restore_on_deactivate scene_one_light
      \<and> fst (check_all_states ?atc scene_one_light) = Inr ()"
    by (simp add: check_all_states_def scene_one_light_def scene_init_def host_def light_def
        check_state_def ATTRIBUTES_TO_CHECK_spec_def compare_values.simps eq_other_def Let_def)
  have mem: "''light.a'' \<in> set (map fst (entities scene_one_light))"
    by (simp add: scene_one_light_def scene_init_def)
  have before: "states scene_one_light = [(''light.a'', Some False)]"
    "AList.update (ev_entity_id turned_on) (old_state turned_on) (restore_states scene_one_light)
       = [(''light.a'', Some (light ''off'' []))]"
    by (simp_all add: scene_one_light_def scene_init_def turned_on_def)
  from inst h mem before show ?thesis by auto
qed

text \<open>
  C5 as stated, \<^verbatim>\<open>check_state\<close> returns one of its three results for every target and
  observation, fails where a comparison raises: with the quoted colour components of the
  target against the numbers of the observation, the subtraction in \<^verbatim>\<open>compare_colors\<close>
  raises \<^verbatim>\<open>TypeError\<close> and \<^verbatim>\<open>check_state\<close> with it.
\<close>

theorem check_state_raises_on_quoted_color:
  "check_state ATTRIBUTES_TO_CHECK_spec scene_quoted_color ''light.a''
     (states_get (hass scene_quoted_color) ''light.a'') = Inl TypeError"
  by (simp add: scene_quoted_color_def scene_init_def host_def light_def check_state_def
      ATTRIBUTES_TO_CHECK_spec_def compare_values.simps eq_other_def compare_attribute_def
      endswith_def compare_colors_def py_sub_def)

text \<open>
  C5, amended: \<^verbatim>\<open>check_state\<close> returns \<^verbatim>\<open>False\<close> for an absent observation; it
  returns \<^verbatim>\<open>None\<close> exactly when the observation is present with state
  \<^verbatim>\<open>unavailable\<close> and unavailable entities are ignored. Otherwise, for a target with a
  state: it returns \<^verbatim>\<open>False\<close> when the target state fails the compare with the observed
  state, whatever the attributes are; it returns \<^verbatim>\<open>True\<close> exactly when the state
  compares \<^verbatim>\<open>True\<close> and every attribute of the allow list of the observation's domain
  that both the target and the observation have compares \<^verbatim>\<open>True\<close>, a colour attribute
  (name ending in \<^verbatim>\<open>_color\<close>) by \<^verbatim>\<open>compare_colors\<close>, scaled for \<^verbatim>\<open>xy_color\<close> only,
  any other by \<^verbatim>\<open>compare_values\<close>, attributes on one side only being skipped; and when the
  state compares \<^verbatim>\<open>True\<close>, the first such attribute in the order of the allow list whose
  comparison is not \<^verbatim>\<open>True\<close> decides: \<^verbatim>\<open>check_state\<close> returns \<^verbatim>\<open>False\<close> if that
  comparison is \<^verbatim>\<open>False\<close> and raises its error if it raises.
\<close>

theorem check_state_cases:
  "check_state atc s eid None = Inr (Some False)
   \<and> (check_state atc s eid obs = Inr None \<longleftrightarrow>
        (\<exists>st. obs = Some st \<and> state st = ''unavailable'' \<and> ignore_unavailable s))
   \<and> (check_state atc s eid obs = Inr (Some True) \<longleftrightarrow>
        (\<exists>st target target_state.
           obs = Some st \<and> \<not> (ignore_unavailable s \<and> state st = ''unavailable'')
           \<and> map_of (entities s) eid = Some target \<and> map_of target ''state'' = Some target_state
           \<and> compare_values (number_tolerance s) target_state (PStr (state st)) = Inr True
           \<and> (\<forall>a \<in> set (allow_list atc (domain st)). \<forall>v1 v2.
                 map_of target a = Some v1 \<and> map_of (attributes st) a = Some v2 \<longrightarrow>
                 (if endswith a ''_color''
                  then compare_colors (number_tolerance s) v1 v2 (a = ''xy_color'')
                  else compare_values (number_tolerance s) v1 v2) = Inr True)))
   \<and> (obs = Some st \<and> \<not> (ignore_unavailable s \<and> state st = ''unavailable'')
        \<and> map_of (entities s) eid = Some target \<and> map_of target ''state'' = Some target_state
        \<and> compare_values (number_tolerance s) target_state (PStr (state st)) = Inr False
        \<longrightarrow> check_state atc s eid obs = Inr (Some False))
   \<and> (obs = Some st \<and> \<not> (ignore_unavailable s \<and> state st = ''unavailable'')
        \<and> map_of (entities s) eid = Some target \<and> map_of target ''state'' = Some target_state
        \<and> compare_values (number_tolerance s) target_state (PStr (state st)) = Inr True
        \<and> allow_list atc (domain st) = before @ a # after
        \<and> (\<forall>b \<in> set before. \<forall>w1 w2.
              map_of target b = Some w1 \<and> map_of (attributes st) b = Some w2 \<longrightarrow>
              (if endswith b ''_color''
               then compare_colors (number_tolerance s) w1 w2 (b = ''xy_color'')
               else compare_values (number_tolerance s) w1 w2) = Inr True)
        \<and> map_of target a = Some v1 \<and> map_of (attributes st) a = Some v2
        \<longrightarrow> ((if endswith a ''_color''
               then compare_colors (number_tolerance s) v1 v2 (a = ''xy_color'')
               else compare_values (number_tolerance s) v1 v2) = Inr False
              \<longrightarrow> check_state atc s eid obs = Inr (Some False))
          \<and> ((if endswith a ''_color''
               then compare_colors (number_tolerance s) v1 v2 (a = ''xy_color'')
               else compare_values (number_tolerance s) v1 v2) = Inl err
              \<longrightarrow> check_state atc s eid obs = Inl err))"
proof -
  let ?tol = "number_tolerance s"
  have cmp: "\<And>x y z. (if endswith x ''_color'' then compare_colors ?tol y z (x = ''xy_color'')
                       else compare_values ?tol y z) = compare_attribute ?tol x y z"
    by (simp add: compare_attribute_def)
  have absent: "check_state atc s eid None = Inr (Some False)"
    by (simp add: check_state_def)
  have unknown: "check_state atc s eid obs = Inr None \<longleftrightarrow>
        (\<exists>st. obs = Some st \<and> state st = ''unavailable'' \<and> ignore_unavailable s)"
    by (auto simp: check_state_def split: option.splits sum.splits bool.splits)
  have matched: "check_state atc s eid obs = Inr (Some True) \<longleftrightarrow>
        (\<exists>st target target_state.
           obs = Some st \<and> \<not> (ignore_unavailable s \<and> state st = ''unavailable'')
           \<and> map_of (entities s) eid = Some target \<and> map_of target ''state'' = Some target_state
           \<and> compare_values ?tol target_state (PStr (state st)) = Inr True
           \<and> (\<forall>a \<in> set (allow_list atc (domain st)). \<forall>v1 v2.
                 map_of target a = Some v1 \<and> map_of (attributes st) a = Some v2 \<longrightarrow>
                 compare_attribute ?tol a v1 v2 = Inr True))"
    (is "?L \<longleftrightarrow> ?R")
  proof (cases obs)
    case None
    then show ?thesis by (simp add: check_state_def)
  next
    case (Some st)
    show ?thesis
    proof (cases "ignore_unavailable s \<and> state st = ''unavailable''")
      case True
      with Some show ?thesis by (simp add: check_state_def)
    next
      case False
      show ?thesis
      proof (cases "map_of (entities s) eid")
        case None
        with Some False show ?thesis by (simp add: check_state_def)
      next
        case target: (Some target)
        show ?thesis
        proof (cases "map_of target ''state''")
          case None
          with Some False target show ?thesis by (simp add: check_state_def)
        next
          case ts: (Some target_state)
          note present = check_state_present [OF Some False target ts, of atc]
          show ?thesis
          proof (cases "compare_values ?tol target_state (PStr (state st))")
            case (Inl e)
            with Some False target ts present show ?thesis by simp
          next
            case (Inr m)
            show ?thesis
            proof (cases m)
              case mf: False
              with Some False target ts Inr present show ?thesis by simp
            next
              case True
              have "?L \<longleftrightarrow> attributes_match ?tol target (attributes st)
                        (allow_list atc (domain st)) = Inr True"
                using Inr True present by (auto split: sum.splits)
              also have "\<dots> \<longleftrightarrow> ?R"
                using Some False target ts Inr True
                by (simp add: attributes_match_True_iff)
              finally show ?thesis .
            qed
          qed
        qed
      qed
    qed
  qed
  have state_fails:
    "obs = Some st \<and> \<not> (ignore_unavailable s \<and> state st = ''unavailable'')
        \<and> map_of (entities s) eid = Some target \<and> map_of target ''state'' = Some target_state
        \<and> compare_values ?tol target_state (PStr (state st)) = Inr False
        \<longrightarrow> check_state atc s eid obs = Inr (Some False)"
  proof
    assume h: "obs = Some st \<and> \<not> (ignore_unavailable s \<and> state st = ''unavailable'')
        \<and> map_of (entities s) eid = Some target \<and> map_of target ''state'' = Some target_state
        \<and> compare_values ?tol target_state (PStr (state st)) = Inr False"
    then have "check_state atc s eid obs =
       (case compare_values ?tol target_state (PStr (state st)) of
          Inl e \<Rightarrow> Inl e
        | Inr False \<Rightarrow> Inr (Some False)
        | Inr True \<Rightarrow>
            (case attributes_match ?tol target (attributes st) (allow_list atc (domain st)) of
               Inl e \<Rightarrow> Inl e
             | Inr m \<Rightarrow> Inr (Some m)))"
      by (intro check_state_present) simp_all
    with h show "check_state atc s eid obs = Inr (Some False)" by simp
  qed
  have first:
    "obs = Some st \<and> \<not> (ignore_unavailable s \<and> state st = ''unavailable'')
        \<and> map_of (entities s) eid = Some target \<and> map_of target ''state'' = Some target_state
        \<and> compare_values ?tol target_state (PStr (state st)) = Inr True
        \<and> allow_list atc (domain st) = before @ a # after
        \<and> (\<forall>b \<in> set before. \<forall>w1 w2.
              map_of target b = Some w1 \<and> map_of (attributes st) b = Some w2 \<longrightarrow>
              compare_attribute ?tol b w1 w2 = Inr True)
        \<and> map_of target a = Some v1 \<and> map_of (attributes st) a = Some v2
        \<longrightarrow> (compare_attribute ?tol a v1 v2 = Inr False
              \<longrightarrow> check_state atc s eid obs = Inr (Some False))
          \<and> (compare_attribute ?tol a v1 v2 = Inl err
              \<longrightarrow> check_state atc s eid obs = Inl err)"
  proof
    assume h: "obs = Some st \<and> \<not> (ignore_unavailable s \<and> state st = ''unavailable'')
        \<and> map_of (entities s) eid = Some target \<and> map_of target ''state'' = Some target_state
        \<and> compare_values ?tol target_state (PStr (state st)) = Inr True
        \<and> allow_list atc (domain st) = before @ a # after
        \<and> (\<forall>b \<in> set before. \<forall>w1 w2.
              map_of target b = Some w1 \<and> map_of (attributes st) b = Some w2 \<longrightarrow>
              compare_attribute ?tol b w1 w2 = Inr True)
        \<and> map_of target a = Some v1 \<and> map_of (attributes st) a = Some v2"
    then have present: "check_state atc s eid obs =
       (case compare_values ?tol target_state (PStr (state st)) of
          Inl e \<Rightarrow> Inl e
        | Inr False \<Rightarrow> Inr (Some False)
        | Inr True \<Rightarrow>
            (case attributes_match ?tol target (attributes st) (allow_list atc (domain st)) of
               Inl e \<Rightarrow> Inl e
             | Inr m \<Rightarrow> Inr (Some m)))"
      by (intro check_state_present) simp_all
    from h have loop: "attributes_match ?tol target (attributes st) (before @ a # after) =
       (case compare_attribute ?tol a v1 v2 of
          Inl e \<Rightarrow> Inl e
        | Inr False \<Rightarrow> Inr False
        | Inr True \<Rightarrow> attributes_match ?tol target (attributes st) after)"
      by (intro attributes_match_first) simp_all
    from h present loop
    show "(compare_attribute ?tol a v1 v2 = Inr False
              \<longrightarrow> check_state atc s eid obs = Inr (Some False))
          \<and> (compare_attribute ?tol a v1 v2 = Inl err
              \<longrightarrow> check_state atc s eid obs = Inl err)"
      by simp
  qed
  from absent unknown matched state_fails first show ?thesis
    unfolding cmp by blast
qed

theorem check_state_cases_witness:
  "check_state ATTRIBUTES_TO_CHECK_spec scene_colored ''light.a''
       (Some (colored_light (PTuple [PInt 254, PInt 1, PInt 0])
                            (PTuple [PFloat (Fin (1 / 2)), PFloat (Fin (1 / 2))])))
     = Inr (Some True)
   \<and> check_state ATTRIBUTES_TO_CHECK_spec scene_colored ''light.a''
       (Some (colored_light (PTuple [PInt 254, PInt 1, PInt 0])
                            (PTuple [PFloat (Fin (1 / 4)), PFloat (Fin (1 / 2))])))
     = Inr (Some False)
   \<and> check_state ATTRIBUTES_TO_CHECK_spec scene_quoted_color ''light.a''
       (Some (light ''off'' [(''rgb_color'', PTuple [PInt 255, PInt 0, PInt 0])]))
     = Inr (Some False)
   \<and> check_state ATTRIBUTES_TO_CHECK_spec scene_quoted_color ''light.a''
       (Some (light ''on'' [(''brightness'', PInt 7), (''rgb_color'', PTuple [PInt 255, PInt 0, PInt 0])]))
     = Inl TypeError"
proof -
  let ?atc = ATTRIBUTES_TO_CHECK_spec
  let ?rgb = "PTuple [PInt 254, PInt 1, PInt 0]"
  let ?good = "colored_light ?rgb (PTuple [PFloat (Fin (1 / 2)), PFloat (Fin (1 / 2))])"
  let ?bad = "colored_light ?rgb (PTuple [PFloat (Fin (1 / 4)), PFloat (Fin (1 / 2))])"
  let ?tc = "[(''state'', PStr ''on''), (''brightness'', PInt 100),
              (''rgb_color'', PList [PInt 255, PInt 0, PInt 0]),
              (''xy_color'', PList [PFloat (Fin (1 / 2)), PFloat (Fin (1 / 2))])]"
  let ?off = "light ''off'' [(''rgb_color'', PTuple [PInt 255, PInt 0, PInt 0])]"
  let ?num = "light ''on'' [(''brightness'', PInt 7), (''rgb_color'', PTuple [PInt 255, PInt 0, PInt 0])]"
  let ?tq = "[(''state'', PStr ''on''),
              (''rgb_color'', PList [PStr ''255'', PStr ''0'', PStr ''0''])]"
  have allow: "allow_list ?atc ''light''
      = [''brightness'', ''color_temp'', ''rgb_color'', ''xy_color'', ''hs_color'', ''effect'']"
    by (simp add: allow_list_def ATTRIBUTES_TO_CHECK_spec_def)
  have ends: "\<not> endswith ''brightness'' ''_color''" "\<not> endswith ''effect'' ''_color''"
    "endswith ''color_temp'' ''_color'' = False" "endswith ''rgb_color'' ''_color''"
    "endswith ''xy_color'' ''_color''" "endswith ''hs_color'' ''_color''"
    by (simp_all add: endswith_def)
  have h_matched:
    "\<exists>st target target_state.
       Some ?good = Some st \<and> \<not> (ignore_unavailable scene_colored \<and> state st = ''unavailable'')
       \<and> map_of (entities scene_colored) ''light.a'' = Some target
       \<and> map_of target ''state'' = Some target_state
       \<and> compare_values (number_tolerance scene_colored) target_state (PStr (state st)) = Inr True
       \<and> (\<forall>a \<in> set (allow_list ?atc (domain st)). \<forall>v1 v2.
             map_of target a = Some v1 \<and> map_of (attributes st) a = Some v2 \<longrightarrow>
             (if endswith a ''_color''
              then compare_colors (number_tolerance scene_colored) v1 v2 (a = ''xy_color'')
              else compare_values (number_tolerance scene_colored) v1 v2) = Inr True)"
    by (intro exI [of _ ?good] exI [of _ ?tc] exI [of _ "PStr ''on''"])
      (simp add: scene_colored_def colored_light_def scene_init_def light_def allow ends
         compare_values.simps eq_other_def compare_numbers_def compare_colors_def py_sub_def)
  have h_xy:
    "Some ?bad = Some ?bad \<and> \<not> (ignore_unavailable scene_colored \<and> state ?bad = ''unavailable'')
       \<and> map_of (entities scene_colored) ''light.a'' = Some ?tc
       \<and> map_of ?tc ''state'' = Some (PStr ''on'')
       \<and> compare_values (number_tolerance scene_colored) (PStr ''on'') (PStr (state ?bad)) = Inr True
       \<and> allow_list ?atc (domain ?bad)
           = [''brightness'', ''color_temp'', ''rgb_color''] @ ''xy_color'' # [''hs_color'', ''effect'']
       \<and> (\<forall>b \<in> set [''brightness'', ''color_temp'', ''rgb_color'']. \<forall>w1 w2.
             map_of ?tc b = Some w1 \<and> map_of (attributes ?bad) b = Some w2 \<longrightarrow>
             (if endswith b ''_color''
              then compare_colors (number_tolerance scene_colored) w1 w2 (b = ''xy_color'')
              else compare_values (number_tolerance scene_colored) w1 w2) = Inr True)
       \<and> map_of ?tc ''xy_color'' = Some (PList [PFloat (Fin (1 / 2)), PFloat (Fin (1 / 2))])
       \<and> map_of (attributes ?bad) ''xy_color''
           = Some (PTuple [PFloat (Fin (1 / 4)), PFloat (Fin (1 / 2))])"
    by (simp add: scene_colored_def colored_light_def scene_init_def light_def allow ends
         compare_values.simps eq_other_def compare_numbers_def compare_colors_def py_sub_def)
  have xy_false:
    "(if endswith ''xy_color'' ''_color''
      then compare_colors (number_tolerance scene_colored)
             (PList [PFloat (Fin (1 / 2)), PFloat (Fin (1 / 2))])
             (PTuple [PFloat (Fin (1 / 4)), PFloat (Fin (1 / 2))]) (''xy_color'' = ''xy_color'')
      else compare_values (number_tolerance scene_colored)
             (PList [PFloat (Fin (1 / 2)), PFloat (Fin (1 / 2))])
             (PTuple [PFloat (Fin (1 / 4)), PFloat (Fin (1 / 2))])) = Inr False"
    by (simp add: scene_colored_def scene_init_def ends compare_colors_def py_sub_def)
  have h_off:
    "Some ?off = Some ?off \<and> \<not> (ignore_unavailable scene_quoted_color \<and> state ?off = ''unavailable'')
       \<and> map_of (entities scene_quoted_color) ''light.a'' = Some ?tq
       \<and> map_of ?tq ''state'' = Some (PStr ''on'')
       \<and> compare_values (number_tolerance scene_quoted_color) (PStr ''on'') (PStr (state ?off))
           = Inr False"
    by (simp add: scene_quoted_color_def scene_init_def light_def compare_values.simps eq_other_def)
  have h_num:
    "Some ?num = Some ?num
       \<and> \<not> (ignore_unavailable scene_quoted_color \<and> state ?num = ''unavailable'')
       \<and> map_of (entities scene_quoted_color) ''light.a'' = Some ?tq
       \<and> map_of ?tq ''state'' = Some (PStr ''on'')
       \<and> compare_values (number_tolerance scene_quoted_color) (PStr ''on'') (PStr (state ?num))
           = Inr True
       \<and> allow_list ?atc (domain ?num)
           = [''brightness'', ''color_temp''] @ ''rgb_color'' # [''xy_color'', ''hs_color'', ''effect'']
       \<and> (\<forall>b \<in> set [''brightness'', ''color_temp'']. \<forall>w1 w2.
             map_of ?tq b = Some w1 \<and> map_of (attributes ?num) b = Some w2 \<longrightarrow>
             (if endswith b ''_color''
              then compare_colors (number_tolerance scene_quoted_color) w1 w2 (b = ''xy_color'')
              else compare_values (number_tolerance scene_quoted_color) w1 w2) = Inr True)
       \<and> map_of ?tq ''rgb_color'' = Some (PList [PStr ''255'', PStr ''0'', PStr ''0''])
       \<and> map_of (attributes ?num) ''rgb_color'' = Some (PTuple [PInt 255, PInt 0, PInt 0])"
    by (simp add: scene_quoted_color_def scene_init_def light_def allow ends
        compare_values.simps eq_other_def)
  have num_raises:
    "(if endswith ''rgb_color'' ''_color''
      then compare_colors (number_tolerance scene_quoted_color)
             (PList [PStr ''255'', PStr ''0'', PStr ''0''])
             (PTuple [PInt 255, PInt 0, PInt 0]) (''rgb_color'' = ''xy_color'')
      else compare_values (number_tolerance scene_quoted_color)
             (PList [PStr ''255'', PStr ''0'', PStr ''0''])
             (PTuple [PInt 255, PInt 0, PInt 0])) = Inl TypeError"
    by (simp add: ends compare_colors_def py_sub_def)
  from check_state_cases [where atc = ?atc and s = scene_colored and eid = "''light.a''"
      and obs = "Some ?good"] h_matched
  have c1: "check_state ?atc scene_colored ''light.a'' (Some ?good) = Inr (Some True)"
    by blast
  from check_state_cases [where atc = ?atc and s = scene_colored and eid = "''light.a''"
      and obs = "Some ?bad" and st = ?bad and target = ?tc and target_state = "PStr ''on''"
      and before = "[''brightness'', ''color_temp'', ''rgb_color'']" and a = "''xy_color''"
      and after = "[''hs_color'', ''effect'']"
      and ?v1.0 = "PList [PFloat (Fin (1 / 2)), PFloat (Fin (1 / 2))]"
      and ?v2.0 = "PTuple [PFloat (Fin (1 / 4)), PFloat (Fin (1 / 2))]"] h_xy xy_false
  have c2: "check_state ?atc scene_colored ''light.a'' (Some ?bad) = Inr (Some False)"
    by blast
  from check_state_cases [where atc = ?atc and s = scene_quoted_color and eid = "''light.a''"
      and obs = "Some ?off" and st = ?off and target = ?tq and target_state = "PStr ''on''"] h_off
  have c3: "check_state ?atc scene_quoted_color ''light.a'' (Some ?off) = Inr (Some False)"
    by blast
  from check_state_cases [where atc = ?atc and s = scene_quoted_color and eid = "''light.a''"
      and obs = "Some ?num" and st = ?num and target = ?tq and target_state = "PStr ''on''"
      and before = "[''brightness'', ''color_temp'']" and a = "''rgb_color''"
      and after = "[''xy_color'', ''hs_color'', ''effect'']"
      and ?v1.0 = "PList [PStr ''255'', PStr ''0'', PStr ''0'']" and ?v2.0 = "PTuple [PInt 255, PInt 0, PInt 0]"
      and err = TypeError] h_num num_raises
  have c4: "check_state ?atc scene_quoted_color ''light.a'' (Some ?num) = Inl TypeError"
    by blast
  from c1 c2 c3 c4 show ?thesis by blast
qed

text \<open>
  C9: \<^verbatim>\<open>turn_on\<close> of a scene without an entity id raises (building the message of the
  intended exception from the missing id is a \<^verbatim>\<open>TypeError\<close>); the scene, its verdict
  among the rest, is unchanged and the host has received no service call.
\<close>

theorem turn_on_without_entity_id:
  "entity_id s = None \<Longrightarrow>
     fst (turn_on s) = Inl TypeError \<and> snd (turn_on s) = s
     \<and> is_on (snd (turn_on s)) = is_on s
     \<and> service_calls (hass (snd (turn_on s))) = service_calls (hass s)"
  by (simp add: turn_on_def)

theorem turn_on_without_entity_id_witness:
  "fst (turn_on scene_unresolved) = Inl TypeError
   \<and> is_on (snd (turn_on scene_unresolved)) = None
   \<and> service_calls (hass (snd (turn_on scene_unresolved))) = []"
proof -
  have h: "entity_id scene_unresolved = None"
    by (simp add: scene_unresolved_def scene_init_def)
  have before: "is_on scene_unresolved = None" "service_calls (hass scene_unresolved) = []"
    by (simp_all add: scene_unresolved_def scene_init_def host_def)
  from turn_on_without_entity_id [OF h] before show ?thesis by simp
qed

end
